theory Spec2Isabelle
  imports Complex_Main "HOL-Library.AList"
begin

section \<open>Strings, records and the log\<close>

text \<open>
  Python strings are modelled as \<^typ>\<open>string\<close>; a character stands for the code point
  of the same number, so the model covers text in the Latin-1 range. \<open>isspace\<close>,
  \<open>strip\<close> and \<open>lower\<close> follow \<^verbatim>\<open>str.isspace\<close>, \<^verbatim>\<open>str.strip\<close> and
  \<^verbatim>\<open>str.lower\<close> on that range.
\<close>

definition isspace :: "char \<Rightarrow> bool" where
  "isspace c = (let n = (of_char c :: nat) in
     (9 \<le> n \<and> n \<le> 13) \<or> (28 \<le> n \<and> n \<le> 32) \<or> n = 133 \<or> n = 160)"

definition strip :: "string \<Rightarrow> string" where
  "strip s = rev (dropWhile isspace (rev (dropWhile isspace s)))"

definition lower_char :: "char \<Rightarrow> char" where
  "lower_char c = (let n = (of_char c :: nat) in
     if (65 \<le> n \<and> n \<le> 90) \<or> (192 \<le> n \<and> n \<le> 222 \<and> n \<noteq> 215)
     then char_of (n + 32) else c)"

definition lower :: "string \<Rightarrow> string" where
  "lower s = map lower_char s"

text \<open>
  \<^verbatim>\<open>str.splitlines\<close> on the Latin-1 range: a line ends at a line feed, a vertical
  tab, a form feed, a carriage return (with a line feed right after it as one boundary),
  a file, group or record separator, or a next-line character; a boundary at the very
  end opens no further line.
\<close>

definition is_linebreak :: "char \<Rightarrow> bool" where
  "is_linebreak c = (let n = (of_char c :: nat) in
     (10 \<le> n \<and> n \<le> 13) \<or> (28 \<le> n \<and> n \<le> 30) \<or> n = 133)"

fun splitlines_from :: "string \<Rightarrow> string \<Rightarrow> string list" where
  "splitlines_from cur [] = (if cur = [] then [] else [rev cur])"
| "splitlines_from cur [c] = (if is_linebreak c then [rev cur] else [rev (c # cur)])"
| "splitlines_from cur (c # d # cs) =
     (if c = CHR 0x0D \<and> d = CHR 0x0A then rev cur # splitlines_from [] cs
      else if is_linebreak c then rev cur # splitlines_from [] (d # cs)
      else splitlines_from (c # cur) (d # cs))"

definition splitlines :: "string \<Rightarrow> string list" where
  "splitlines s = splitlines_from [] s"

text \<open>Whether \<^verbatim>\<open>s.encode('ascii')\<close> succeeds.\<close>

definition is_ascii :: "string \<Rightarrow> bool" where
  "is_ascii s = list_all (\<lambda>c. (of_char c :: nat) < 128) s"

text \<open>Decimal rendering of a non-negative integer, as an f-string does.\<close>

function str_nat :: "nat \<Rightarrow> string" where
  "str_nat n = (if n < 10 then [char_of (48 + n)]
                else str_nat (n div 10) @ [char_of (48 + n mod 10)])"
  by pat_completeness auto
termination
  by (relation "measure id") auto

declare str_nat.simps [simp del]

definition str_int :: "int \<Rightarrow> string" where
  "str_int n = (if n < 0 then CHR ''-'' # str_nat (nat (- n)) else str_nat (nat n))"

text \<open>
  A recipient record is a Python \<^verbatim>\<open>dict\<close> from field name to value, kept as an
  association list in insertion order: \<^verbatim>\<open>row.get(k)\<close> is \<open>map_of row k\<close> and
  \<^verbatim>\<open>row[k] = v\<close> is \<open>AList.update k v row\<close>.
\<close>

type_synonym row = "(string \<times> string) list"

datatype level = INFO | WARNING | ERROR

type_synonym log = "(level \<times> string) list"

text \<open>\<^verbatim>\<open>(row.get(key) or "")\<close>: a missing key and an empty value both give the empty string.\<close>

definition get_or_empty :: "row \<Rightarrow> string \<Rightarrow> string" where
  "get_or_empty row key = (case map_of row key of None \<Rightarrow> [] | Some v \<Rightarrow> v)"

section \<open>Required fields and fallbacks\<close>

definition FALLBACKS :: "string \<rightharpoonup> string" where
  "FALLBACKS = [''name'' \<mapsto> ''there'', ''company'' \<mapsto> []]"

definition required_fields :: "string set \<Rightarrow> string set" where
  "required_fields used_keys = {''email''} \<union> (used_keys \<inter> {''name'', ''company''})"

text \<open>
  Python iterates the set \<^verbatim>\<open>required - {"email"}\<close> in an order that depends on string
  hashing. The set has at most the two members \<^verbatim>\<open>name\<close> and \<^verbatim>\<open>company\<close>, so the
  order is fixed by one bit, a parameter of the model.
\<close>

definition iter_order :: "bool \<Rightarrow> string list" where
  "iter_order name_first =
     (if name_first then [''name'', ''company''] else [''company'', ''name''])"

definition keys_to_check :: "bool \<Rightarrow> string set \<Rightarrow> string list" where
  "keys_to_check name_first used_keys =
     filter (\<lambda>k. k \<in> required_fields used_keys - {''email''}) (iter_order name_first)"

definition missing_msg :: "nat \<Rightarrow> nat \<Rightarrow> string \<Rightarrow> string" where
  "missing_msg i tot key =
     ''['' @ str_nat i @ ''/'' @ str_nat tot @ ''] Missing required field ''
       @ [CHR 0x27] @ key @ [CHR 0x27] @ ''. Skipping.''"

definition fallback_msg :: "nat \<Rightarrow> nat \<Rightarrow> string \<Rightarrow> string \<Rightarrow> string" where
  "fallback_msg i tot key fb =
     ''['' @ str_nat i @ ''/'' @ str_nat tot @ ''] Missing '' @ [CHR 0x27] @ key
       @ [CHR 0x27] @ '', using fallback '' @ [CHR 0x27] @ fb @ [CHR 0x27] @ ''.''"

text \<open>
  The body of the \<^verbatim>\<open>for key in required - {"email"}\<close> loop of
  \<^verbatim>\<open>ensure_required_fields\<close>, over the keys in iteration order. The result is the
  returned pair \<open>(ok, reason)\<close>, the record as mutated, and the warnings logged.
  The fallback table is a parameter; the program passes \<open>FALLBACKS\<close>.
\<close>

fun ensure_loop ::
  "(string \<rightharpoonup> string) \<Rightarrow> nat \<Rightarrow> nat \<Rightarrow> string list \<Rightarrow> row \<Rightarrow> log
     \<Rightarrow> (bool \<times> string) \<times> row \<times> log" where
  "ensure_loop fallbacks i tot [] row lg = ((True, []), row, lg)"
| "ensure_loop fallbacks i tot (key # keys) row lg =
     (let val = strip (get_or_empty row key) in
      if val = [] then
        (case fallbacks key of
           None \<Rightarrow> ((False, missing_msg i tot key), row, lg)
         | Some fb \<Rightarrow>
             ensure_loop fallbacks i tot keys (AList.update key fb row)
               (lg @ [(WARNING, fallback_msg i tot key fb)]))
      else ensure_loop fallbacks i tot keys row lg)"

definition ensure_required_fields_with ::
  "(string \<rightharpoonup> string) \<Rightarrow> bool \<Rightarrow> row \<Rightarrow> string set \<Rightarrow> nat \<Rightarrow> nat
     \<Rightarrow> (bool \<times> string) \<times> row \<times> log" where
  "ensure_required_fields_with fallbacks name_first row used_keys i tot =
     ensure_loop fallbacks i tot (keys_to_check name_first used_keys) row []"

definition ensure_required_fields ::
  "bool \<Rightarrow> row \<Rightarrow> string set \<Rightarrow> nat \<Rightarrow> nat \<Rightarrow> (bool \<times> string) \<times> row \<times> log" where
  "ensure_required_fields = ensure_required_fields_with FALLBACKS"

text \<open>A field is blank when it is missing, empty or all whitespace.\<close>

definition blank :: "row \<Rightarrow> string \<Rightarrow> bool" where
  "blank row key = (strip (get_or_empty row key) = [])"

definition result_ok :: "(bool \<times> string) \<times> row \<times> log \<Rightarrow> bool" where
  "result_ok res = fst (fst res)"

definition result_reason :: "(bool \<times> string) \<times> row \<times> log \<Rightarrow> string" where
  "result_reason res = snd (fst res)"

definition result_row :: "(bool \<times> string) \<times> row \<times> log \<Rightarrow> row" where
  "result_row res = fst (snd res)"

definition result_log :: "(bool \<times> string) \<times> row \<times> log \<Rightarrow> log" where
  "result_log res = snd (snd res)"

section \<open>Placeholders\<close>

text \<open>
  \<^verbatim>\<open>extract_placeholders\<close> collects the groups of every match of the pattern
  \<^verbatim>\<open>\$\{([a-zA-Z_]\w*)\}\<close>. \<open>is_word\<close> is \<^verbatim>\<open>\w\<close> on the Latin-1 range. A match
  at the head of the text needs \<^verbatim>\<open>${\<close>, a first character, the longest run of word
  characters and then \<^verbatim>\<open>}\<close>; \<^verbatim>\<open>findall\<close> resumes after a match and one character
  further after a failure.
\<close>

definition is_first :: "char \<Rightarrow> bool" where
  "is_first c = (let n = (of_char c :: nat) in
     (65 \<le> n \<and> n \<le> 90) \<or> (97 \<le> n \<and> n \<le> 122) \<or> n = 95)"

definition is_word :: "char \<Rightarrow> bool" where
  "is_word c = (let n = (of_char c :: nat) in
     (48 \<le> n \<and> n \<le> 57) \<or> (65 \<le> n \<and> n \<le> 90) \<or> (97 \<le> n \<and> n \<le> 122) \<or> n = 95
     \<or> n = 170 \<or> n = 178 \<or> n = 179 \<or> n = 181 \<or> n = 185 \<or> n = 186
     \<or> (188 \<le> n \<and> n \<le> 190) \<or> (192 \<le> n \<and> n \<le> 214) \<or> (216 \<le> n \<and> n \<le> 246)
     \<or> (248 \<le> n \<and> n \<le> 255))"

fun match_at :: "string \<Rightarrow> (string \<times> string) option" where
  "match_at (d # b # c # cs) =
     (if d = CHR ''$'' \<and> b = CHR ''{'' \<and> is_first c then
        (case dropWhile is_word cs of
           [] \<Rightarrow> None
         | e # after \<Rightarrow>
             if e = CHR ''}'' then Some (c # takeWhile is_word cs, after) else None)
      else None)"
| "match_at _ = None"

function findall :: "string \<Rightarrow> string list" where
  "findall [] = []"
| "findall (c # cs) =
     (case match_at (c # cs) of
        None \<Rightarrow> findall cs
      | Some (key, after) \<Rightarrow> key # findall after)"
  by pat_completeness auto

lemma match_at_shorter: "match_at s = Some (key, after) \<Longrightarrow> length after < length s"
proof (induction s rule: match_at.induct)
  case (1 d b c cs)
  then obtain e where e: "dropWhile is_word cs = e # after"
    by (auto split: if_splits list.splits)
  have "length (dropWhile is_word cs) \<le> length cs"
    by (rule length_dropWhile_le)
  then show ?case using e by simp
qed simp_all

termination findall
  by (relation "measure length") (auto dest: match_at_shorter)

definition extract_placeholders :: "string list \<Rightarrow> string set" where
  "extract_placeholders tmpls = set (concat (map findall tmpls))"

section \<open>Configuration and environment\<close>

text \<open>
  The module-level settings read from the environment. \<^verbatim>\<open>MAX_RETRIES\<close> and
  \<^verbatim>\<open>RATE_LIMIT_PER_MIN\<close> are \<^verbatim>\<open>max(1, int(...))\<close> of the configured number.
\<close>

record config =
  SMTP_HOST :: string
  SMTP_PORT :: int
  SMTP_SECURE :: string
  SMTP_USER :: string
  SMTP_PASS :: string
  FROM_NAME :: string
  FROM_EMAIL :: string
  REPLY_TO :: string
  SUBJECT_TMPL :: string
  ATTACHMENT_PATH :: "string option"
  rate_limit_setting :: int
  max_retries_setting :: int
  DRY_RUN :: bool
  UNSUBSCRIBE_MAILTO :: string
  UNSUBSCRIBE_URL :: string
  SMTP_DEEP_CHECK :: bool

definition RATE_LIMIT_PER_MIN :: "config \<Rightarrow> nat" where
  "RATE_LIMIT_PER_MIN cfg = nat (max 1 (rate_limit_setting cfg))"

definition MAX_RETRIES :: "config \<Rightarrow> nat" where
  "MAX_RETRIES cfg = nat (max 1 (max_retries_setting cfg))"

definition JITTER :: real where
  "JITTER = 2 / 10"

text \<open>
  The files the run reads: the two templates (\<open>None\<close> when the file does not exist), the
  lines of the suppression file, and the recipient table as \<^verbatim>\<open>csv.reader\<close> yields
  it, a list of rows of cells.
\<close>

record files =
  html_template :: "string option"
  text_template :: "string option"
  suppressions_file :: "string list option"
  recipients_csv :: "string list list option"

text \<open>
  What the library computes, as parameters of the model: the text
  \<^verbatim>\<open>Template.safe_substitute\<close> renders, the text \<^verbatim>\<open>email.utils.formataddr\<close>
  returns when it returns, and \<open>float_round\<close>, the rounding of a real number to the
  nearest floating-point number, so that the float sum of \<open>x\<close> and \<open>y\<close> is
  \<open>float_round (x + y)\<close>. Where a library call raises, the model says so itself (see
  \<open>build_message\<close>, \<open>try_send\<close> and \<open>sleep_time\<close>).
\<close>

record stdlib =
  safe_substitute :: "string \<Rightarrow> row \<Rightarrow> string"
  formataddr :: "string \<times> string \<Rightarrow> string"
  float_round :: "real \<Rightarrow> real"

text \<open>
  The outcome of a call of \<^verbatim>\<open>smtp.send_message\<close>: it returns, or raises
  \<^verbatim>\<open>SMTPServerDisconnected\<close>, an \<^verbatim>\<open>SMTPResponseException\<close> with its code and its
  reply (\<open>Some\<close> the reply as text, \<open>None\<close> when the reply is bytes that are not valid
  UTF-8), \<^verbatim>\<open>SMTPRecipientsRefused\<close> with the code the server gave to the recipient
  and the text of the exception, or any other exception with its text.
  \<^verbatim>\<open>SMTPRecipientsRefused\<close> is not an \<^verbatim>\<open>SMTPResponseException\<close>.
\<close>

datatype send_result =
    Delivered
  | ServerDisconnected string
  | ResponseException int "string option"
  | RecipientsRefused int string
  | OtherException string

datatype connect_result = Connected | ConnectError string

datatype py_error =
    KeyError string
  | ValueError string
  | UnicodeEncodeError string
  | UnicodeDecodeError
  | OverflowError
  | ConnectFailed string

record attachment =
  maintype :: string
  subtype :: string
  filename :: string
  data :: string

text \<open>
  Everything outside the program that a run observes: the address validator (\<open>Inl e\<close>
  is \<^verbatim>\<open>EmailNotValidError\<close> with text \<open>e\<close>, \<open>Inr v\<close> the normalized address), the
  outcome of the n-th call of \<^verbatim>\<open>smtp.send_message\<close> and of the n-th call of
  \<^verbatim>\<open>smtp_client()\<close> in \<^verbatim>\<open>main\<close> (counted from 0), the n-th draw of
  \<^verbatim>\<open>random.uniform(0, JITTER)\<close>,
  the message identifier, date and attachment read for the i-th recipient, the probes of
  the SMTP preflight, and the iteration order of the required-key set.
\<close>

record world =
  validate_email :: "string \<Rightarrow> string + string"
  send_message :: "nat \<Rightarrow> send_result"
  smtp_client :: "nat \<Rightarrow> connect_result"
  uniform :: "nat \<Rightarrow> real"
  make_msgid :: "nat \<Rightarrow> string"
  formatdate :: "nat \<Rightarrow> string"
  attach_file :: "nat \<Rightarrow> string + attachment"
  getaddrinfo_ok :: bool
  quick_connect_ok :: bool
  deep_login_ok :: bool
  name_first :: bool

section \<open>Building a message\<close>

record message =
  Subject :: string
  From :: string
  Reply_To :: string
  Message_ID :: string
  Date :: string
  To :: string
  List_Unsubscribe :: "string option"
  List_Unsubscribe_Post :: "string option"
  text_body :: string
  html_body :: string
  attached :: "attachment option"

fun join :: "string \<Rightarrow> string list \<Rightarrow> string" where
  "join sep [] = []"
| "join sep [x] = x"
| "join sep (x # y # ys) = x @ sep @ join sep (y # ys)"

definition quoted :: "string \<Rightarrow> string" where
  "quoted s = [CHR 0x27] @ s @ [CHR 0x27]"

definition tag :: "nat \<Rightarrow> nat \<Rightarrow> string" where
  "tag i tot = ''['' @ str_nat i @ ''/'' @ str_nat tot @ ''] ''"

text \<open>
  Setting a header of an \<^verbatim>\<open>EmailMessage\<close> raises \<^verbatim>\<open>ValueError\<close> when the value
  splits into more than one line.
\<close>

definition multi_line :: "string \<Rightarrow> bool" where
  "multi_line v = (1 < length (splitlines v))"

definition header_error :: py_error where
  "header_error =
     ValueError ''Header values may not contain linefeed or carriage return characters''"

text \<open>
  \<^verbatim>\<open>build_message\<close>, statement by statement. Setting \<^verbatim>\<open>Subject\<close>, \<^verbatim>\<open>From\<close>,
  \<^verbatim>\<open>Reply-To\<close>, \<^verbatim>\<open>To\<close> or \<^verbatim>\<open>List-Unsubscribe\<close> raises \<^verbatim>\<open>ValueError\<close> on a
  value of more than one line; \<^verbatim>\<open>formataddr\<close> raises \<^verbatim>\<open>UnicodeEncodeError\<close> on
  an address that is not ASCII; \<^verbatim>\<open>row["email"]\<close> raises \<^verbatim>\<open>KeyError\<close> on a record
  without the key. None of these is caught. The message identifier and the date come
  from the environment (\<^verbatim>\<open>make_msgid\<close> and \<^verbatim>\<open>formatdate\<close> return one line), as do
  the bytes of the attachment; an error while attaching is logged and the message is
  returned without the attachment.
\<close>

definition build_message ::
  "config \<Rightarrow> stdlib \<Rightarrow> world \<Rightarrow> nat \<Rightarrow> row \<Rightarrow> string \<Rightarrow> string \<Rightarrow> string
     \<Rightarrow> py_error + message \<times> log" where
  "build_message cfg lib w i row subject_tmpl html_tmpl text_tmpl =
     (let substitutions = row;
          subject = safe_substitute lib subject_tmpl substitutions
      in if multi_line subject then Inl header_error
         else if \<not> is_ascii (FROM_EMAIL cfg) then Inl (UnicodeEncodeError (FROM_EMAIL cfg))
         else if multi_line (formataddr lib (FROM_NAME cfg, FROM_EMAIL cfg))
           then Inl header_error
         else if multi_line (REPLY_TO cfg) then Inl header_error
         else
           (case map_of row ''email'' of
              None \<Rightarrow> Inl (KeyError ''email'')
            | Some addr \<Rightarrow>
                if \<not> is_ascii addr then Inl (UnicodeEncodeError addr)
                else
                  (let to_value = formataddr lib
                         (case map_of row ''name'' of None \<Rightarrow> [] | Some n \<Rightarrow> n, addr);
                       lh = (if UNSUBSCRIBE_MAILTO cfg \<noteq> []
                             then [''<mailto:'' @ UNSUBSCRIBE_MAILTO cfg @ ''>''] else [])
                          @ (if UNSUBSCRIBE_URL cfg \<noteq> []
                             then [''<'' @ safe_substitute lib (UNSUBSCRIBE_URL cfg)
                                              substitutions @ ''>'']
                             else []);
                       att = (case ATTACHMENT_PATH cfg of
                                None \<Rightarrow> None
                              | Some path \<Rightarrow>
                                  if path = [] then None else Some (attach_file w i));
                       msg = \<lparr> Subject = subject,
                               From = formataddr lib (FROM_NAME cfg, FROM_EMAIL cfg),
                               Reply_To = REPLY_TO cfg,
                               Message_ID = make_msgid w i,
                               Date = formatdate w i,
                               To = to_value,
                               List_Unsubscribe =
                                 (if lh = [] then None else Some (join '', '' lh)),
                               List_Unsubscribe_Post =
                                 (if lh = [] then None
                                  else Some ''List-Unsubscribe=One-Click''),
                               text_body = safe_substitute lib text_tmpl substitutions,
                               html_body = safe_substitute lib html_tmpl substitutions,
                               attached =
                                 (case att of Some (Inr a) \<Rightarrow> Some a | _ \<Rightarrow> None) \<rparr>
                   in if multi_line to_value then Inl header_error
                      else if lh \<noteq> [] \<and> multi_line (join '', '' lh) then Inl header_error
                      else
                        Inr (msg,
                             (case att of
                                Some (Inl e) \<Rightarrow>
                                  [(ERROR, ''Attachment error for '' @ addr @ '': '' @ e)]
                              | _ \<Rightarrow> [])))))"

section \<open>The dispatch loop\<close>

text \<open>
  The local state of \<^verbatim>\<open>main\<close> during the send phase: the four counters, the session
  the variable \<^verbatim>\<open>smtp\<close> is bound to (a session is named by the number of the
  \<^verbatim>\<open>smtp_client()\<close> call that returned it), and what the run did to the outside: the
  sessions it opened, the sessions it closed (by leaving the \<^verbatim>\<open>with\<close> block), the
  sessions lost (those on which \<^verbatim>\<open>send_message\<close> raised
  \<^verbatim>\<open>SMTPServerDisconnected\<close>: the library has shut the socket of such a session
  before it raises), the number of \<^verbatim>\<open>send_message\<close> calls, the messages delivered,
  the random draws, the sleeps and the log.
\<close>

record run_state =
  sent :: nat
  failed :: nat
  invalid_total :: nat
  skipped :: nat
  smtp :: nat
  client_calls :: nat
  opened_sessions :: "nat list"
  closed_sessions :: "nat list"
  lost_sessions :: "nat list"
  send_calls :: nat
  outbox :: "message list"
  draws :: nat
  sleeps :: "real list"
  logs :: log

text \<open>What is fixed once the send phase starts.\<close>

record run_env =
  subject_tmpl :: string
  html_tmpl :: string
  text_tmpl :: string
  used_keys :: "string set"
  suppressions :: "string set"
  pause_seconds :: real
  total_rows :: nat

definition normalize_email :: "world \<Rightarrow> string \<Rightarrow> string option \<times> log" where
  "normalize_email w addr =
     (case validate_email w addr of
        Inr v \<Rightarrow> (Some v, [])
      | Inl e \<Rightarrow> (None, [(WARNING, ''Invalid email '' @ quoted addr @ '': '' @ e)]))"

text \<open>
  The backoff to sleep after a temporary failure of the given attempt:
  \<^verbatim>\<open>min(60, (2 ** (attempt - 1)) + random.uniform(0, JITTER))\<close>. The power is a
  Python integer; adding the float to it converts it to a float, which raises
  \<^verbatim>\<open>OverflowError\<close> from \<open>2 ^ 1024\<close> on, and the sum is a float sum.
\<close>

definition sleep_time :: "stdlib \<Rightarrow> nat \<Rightarrow> real \<Rightarrow> py_error + real" where
  "sleep_time lib attempt jitter =
     (if 1024 \<le> attempt - 1 then Inl OverflowError
      else Inr (min 60 (float_round lib (2 ^ (attempt - 1) + jitter))))"

text \<open>
  One pass through the \<^verbatim>\<open>try\<close> statement of the retry loop. It ends in
  \<^verbatim>\<open>break\<close>, in \<^verbatim>\<open>continue\<close> (after a successful reconnect), falls through to
  the retry test with \<^verbatim>\<open>is_temp\<close> set, or raises: in the clause for
  \<^verbatim>\<open>SMTPResponseException\<close>, \<^verbatim>\<open>e.smtp_error.decode()\<close> raises
  \<^verbatim>\<open>UnicodeDecodeError\<close> on a reply that is not valid UTF-8, and nothing catches
  it. The counter \<open>send_calls\<close> counts the calls of \<^verbatim>\<open>smtp.send_message\<close>; the log
  lines are those of the source, with the ellipsis written as three dots.
\<close>

datatype control =
    Break run_state
  | Continue run_state
  | Classified bool run_state
  | Raise py_error run_state

definition try_send ::
  "config \<Rightarrow> world \<Rightarrow> nat \<Rightarrow> nat \<Rightarrow> string \<Rightarrow> message \<Rightarrow> run_state \<Rightarrow> control" where
  "try_send cfg w i tot email msg st =
     (if DRY_RUN cfg then
        Break (st\<lparr> skipped := skipped st + 1,
                   logs := logs st @ [(INFO, tag i tot @ ''DRY-RUN to '' @ email
                                               @ '' (skipped sending)'')] \<rparr>)
      else
        (let st1 = st\<lparr> send_calls := send_calls st + 1 \<rparr> in
         case send_message w (send_calls st) of
           Delivered \<Rightarrow>
             Break (st1\<lparr> sent := sent st1 + 1, outbox := outbox st1 @ [msg],
                         logs := logs st1 @ [(INFO, tag i tot @ ''Sent to '' @ email)] \<rparr>)
         | ServerDisconnected e \<Rightarrow>
             (let st2 = st1\<lparr> client_calls := client_calls st1 + 1,
                              lost_sessions := lost_sessions st1 @ [smtp st1],
                              logs := logs st1 @ [(WARNING, tag i tot @ ''SMTP disconnected for ''
                                        @ email @ '': '' @ e @ ''. Reconnecting...'')] \<rparr> in
              case smtp_client w (client_calls st1) of
                Connected \<Rightarrow>
                  Continue (st2\<lparr> smtp := client_calls st1,
                                 opened_sessions := opened_sessions st2 @ [client_calls st1] \<rparr>)
              | ConnectError e2 \<Rightarrow>
                  Classified True
                    (st2\<lparr> logs := logs st2 @ [(ERROR, ''Reconnect failed: '' @ e2)] \<rparr>))
         | ResponseException code reply \<Rightarrow>
             (case reply of
                None \<Rightarrow> Raise UnicodeDecodeError st1
              | Some err \<Rightarrow>
                  Classified (400 \<le> code \<and> code < 500)
                    (st1\<lparr> logs := logs st1 @ [(ERROR, tag i tot @ ''SMTP '' @ str_int code
                                                    @ '' to '' @ email @ '': '' @ err)] \<rparr>))
         | RecipientsRefused code e \<Rightarrow>
             Classified True
               (st1\<lparr> logs := logs st1 @ [(ERROR, tag i tot @ ''Error to '' @ email
                                               @ '': '' @ e)] \<rparr>)
         | OtherException e \<Rightarrow>
             Classified True
               (st1\<lparr> logs := logs st1 @ [(ERROR, tag i tot @ ''Error to '' @ email
                                               @ '': '' @ e)] \<rparr>)))"

text \<open>
  \<^verbatim>\<open>for attempt in range(1, MAX_RETRIES + 1)\<close>, over the attempts still to run. When
  the range is used up without a \<^verbatim>\<open>break\<close> the loop just ends. The jitter is drawn
  before the sum is formed, so an overflow leaves the draw counted. The result is the
  exception that left the loop, if any, and the state.
\<close>

fun retry_loop ::
  "config \<Rightarrow> stdlib \<Rightarrow> world \<Rightarrow> nat \<Rightarrow> nat \<Rightarrow> string \<Rightarrow> message \<Rightarrow> nat list
     \<Rightarrow> run_state \<Rightarrow> py_error option \<times> run_state" where
  "retry_loop cfg lib w i tot email msg [] st = (None, st)"
| "retry_loop cfg lib w i tot email msg (attempt # rest) st =
     (case try_send cfg w i tot email msg st of
        Break st' \<Rightarrow> (None, st')
      | Continue st' \<Rightarrow> retry_loop cfg lib w i tot email msg rest st'
      | Raise err st' \<Rightarrow> (Some err, st')
      | Classified is_temp st' \<Rightarrow>
          if attempt < MAX_RETRIES cfg \<and> is_temp then
            (case sleep_time lib attempt (uniform w (draws st')) of
               Inl err \<Rightarrow> (Some err, st'\<lparr> draws := draws st' + 1 \<rparr>)
             | Inr delay \<Rightarrow>
                 retry_loop cfg lib w i tot email msg rest
                   (st'\<lparr> draws := draws st' + 1, sleeps := sleeps st' @ [delay] \<rparr>))
          else (None, st'\<lparr> failed := failed st' + 1 \<rparr>))"

definition attempts :: "config \<Rightarrow> nat list" where
  "attempts cfg = [1 ..< MAX_RETRIES cfg + 1]"

text \<open>
  The rest of the loop body once the record has its required fields: build the message,
  run the retry loop, and pause before the next recipient. An exception of
  \<^verbatim>\<open>build_message\<close> or of the retry loop leaves the loop body.
\<close>

definition send_step ::
  "config \<Rightarrow> stdlib \<Rightarrow> world \<Rightarrow> run_env \<Rightarrow> nat \<Rightarrow> string \<Rightarrow> row \<Rightarrow> run_state
     \<Rightarrow> py_error option \<times> run_state" where
  "send_step cfg lib w env i email row st =
     (case build_message cfg lib w i row (subject_tmpl env) (html_tmpl env) (text_tmpl env) of
        Inl err \<Rightarrow> (Some err, st)
      | Inr (msg, lg) \<Rightarrow>
          (case retry_loop cfg lib w i (total_rows env) email msg (attempts cfg)
                  (st\<lparr> logs := logs st @ lg \<rparr>) of
             (Some err, st1) \<Rightarrow> (Some err, st1)
           | (None, st1) \<Rightarrow>
               (None,
                if i < total_rows env then
                  st1\<lparr> draws := draws st1 + 1,
                        sleeps := sleeps st1
                          @ [float_round lib (pause_seconds env + uniform w (draws st1))] \<rparr>
                else st1)))"

text \<open>
  The field-completion step of the loop body, reached by a valid address that is not
  suppressed: \<^verbatim>\<open>ensure_required_fields\<close>, then either the failure branch or the
  send step.
\<close>

definition field_completion ::
  "config \<Rightarrow> stdlib \<Rightarrow> world \<Rightarrow> run_env \<Rightarrow> nat \<Rightarrow> string \<Rightarrow> row \<Rightarrow> run_state
     \<Rightarrow> py_error option \<times> run_state" where
  "field_completion cfg lib w env i email row st =
     (let res = ensure_required_fields (name_first w) row (used_keys env) i (total_rows env);
          st1 = st\<lparr> logs := logs st @ result_log res \<rparr>
      in if \<not> result_ok res then
           (None, st1\<lparr> failed := failed st1 + 1,
                        logs := logs st1 @ [(WARNING, result_reason res)] \<rparr>)
         else send_step cfg lib w env i email (result_row res) st1)"

text \<open>The body of the loop over the recipients, for the record at position \<open>i\<close>.\<close>

definition process_recipient ::
  "config \<Rightarrow> stdlib \<Rightarrow> world \<Rightarrow> run_env \<Rightarrow> nat \<Rightarrow> row \<Rightarrow> run_state
     \<Rightarrow> py_error option \<times> run_state" where
  "process_recipient cfg lib w env i row st =
     (let email = strip (get_or_empty row ''email'');
          (normalized, lg) = normalize_email w email;
          st0 = st\<lparr> logs := logs st @ lg \<rparr>
      in case normalized of
           None \<Rightarrow>
             (None, st0\<lparr> failed := failed st0 + 1, invalid_total := invalid_total st0 + 1,
                          logs := logs st0 @ [(WARNING, tag i (total_rows env)
                                    @ ''Invalid email: '' @ email @ ''. Skipping.'')] \<rparr>)
         | Some addr \<Rightarrow>
             if addr = [] then
               (None, st0\<lparr> failed := failed st0 + 1, invalid_total := invalid_total st0 + 1,
                            logs := logs st0 @ [(WARNING, tag i (total_rows env)
                                      @ ''Invalid email: '' @ email @ ''. Skipping.'')] \<rparr>)
             else if lower addr \<in> suppressions env then
               (None, st0\<lparr> skipped := skipped st0 + 1,
                            logs := logs st0 @ [(INFO, tag i (total_rows env)
                                      @ ''Suppressed: '' @ email @ ''. Skipping.'')] \<rparr>)
             else
               field_completion cfg lib w env i email (AList.update ''email'' addr row) st0)"

text \<open>
  \<^verbatim>\<open>for i, row in enumerate(rows, start=1)\<close>. An exception that leaves the loop body
  ends the loop.
\<close>

fun dispatch ::
  "config \<Rightarrow> stdlib \<Rightarrow> world \<Rightarrow> run_env \<Rightarrow> nat \<Rightarrow> row list \<Rightarrow> run_state
     \<Rightarrow> py_error option \<times> run_state" where
  "dispatch cfg lib w env i [] st = (None, st)"
| "dispatch cfg lib w env i (row # rows) st =
     (case process_recipient cfg lib w env i row st of
        (Some err, st') \<Rightarrow> (Some err, st')
      | (None, st') \<Rightarrow> dispatch cfg lib w env (i + 1) rows st')"

section \<open>Preflight checks and the run\<close>

text \<open>
  \<^verbatim>\<open>csv_preflight\<close>: the file must exist, its first row must be a non-empty header,
  and every required column must be among the trimmed, lower-cased header cells.
\<close>

definition csv_preflight :: "string list list option \<Rightarrow> string list \<Rightarrow> bool" where
  "csv_preflight csv required =
     (case csv of
        None \<Rightarrow> False
      | Some [] \<Rightarrow> False
      | Some (headers # _) \<Rightarrow>
          if headers = [] then False
          else (let norm = map (\<lambda>h. lower (strip h)) headers;
                    missing = filter (\<lambda>c. c \<notin> set norm) required
                in missing = []))"

text \<open>\<^verbatim>\<open>tuple(sorted(required_cols))\<close>: the required columns in alphabetical order.\<close>

definition sorted_required :: "string set \<Rightarrow> string list" where
  "sorted_required used =
     filter (\<lambda>k. k \<in> required_fields used) [''company'', ''email'', ''name'']"

text \<open>
  \<^verbatim>\<open>load_recipients\<close> over \<^verbatim>\<open>csv.DictReader\<close>: the first row gives the field
  names, empty rows are dropped, a short row is padded (the padding value \<^verbatim>\<open>None\<close>
  becomes the empty string under \<^verbatim>\<open>v or ""\<close>) and the cells beyond the header, stored
  under the key \<^verbatim>\<open>None\<close>, are ignored. Keys are trimmed and lower-cased, values
  trimmed; a record whose values are all empty is not yielded.
\<close>

definition dict_of :: "(string \<times> string) list \<Rightarrow> row" where
  "dict_of pairs = foldl (\<lambda>d (k, v). AList.update k v d) [] pairs"

definition load_row :: "string list \<Rightarrow> string list \<Rightarrow> row" where
  "load_row fieldnames cells =
     (let d = dict_of (zip fieldnames (cells @ replicate (length fieldnames - length cells) []))
      in dict_of (map (\<lambda>(k, v). (lower (strip k), strip v)) d))"

definition load_recipients :: "string list list \<Rightarrow> row list" where
  "load_recipients csv =
     (case csv of
        [] \<Rightarrow> []
      | fieldnames # body \<Rightarrow>
          filter (\<lambda>out. \<exists>v \<in> set (map snd out). v \<noteq> [])
            (map (load_row fieldnames) (filter (\<lambda>cells. cells \<noteq> []) body)))"

datatype preflight_error =
    MissingSmtpConfig "string list"
  | InvalidPort
  | UnsupportedSecure
  | InvalidFromEmail
  | InvalidReplyTo
  | CannotResolve
  | CannotConnect
  | LoginFailed

text \<open>
  \<^verbatim>\<open>smtp_config_preflight\<close>: collects the errors of its checks and succeeds when
  there are none. The deep login check runs only when it is switched on and nothing
  failed before.
\<close>

definition preflight_errors :: "config \<Rightarrow> world \<Rightarrow> preflight_error list" where
  "preflight_errors cfg w =
     (let missing = (if SMTP_HOST cfg = [] then [''SMTP_HOST''] else [])
                  @ (if SMTP_PORT cfg = 0 then [''SMTP_PORT''] else [])
                  @ (if SMTP_USER cfg = [] then [''SMTP_USER''] else [])
                  @ (if SMTP_PASS cfg = [] then [''SMTP_PASS''] else [])
                  @ (if FROM_EMAIL cfg = [] then [''FROM_EMAIL''] else []);
          port = SMTP_PORT cfg;
          secure = lower (SMTP_SECURE cfg)
      in (if missing \<noteq> [] then [MissingSmtpConfig missing] else [])
       @ (if 1 \<le> port \<and> port \<le> 65535 then [] else [InvalidPort])
       @ (if secure \<in> {''starttls'', ''ssl'', ''none''} then [] else [UnsupportedSecure])
       @ (if FROM_EMAIL cfg \<noteq> [] then
            (case validate_email w (FROM_EMAIL cfg) of
               Inl e \<Rightarrow> [InvalidFromEmail] | Inr v \<Rightarrow> [])
          else [InvalidFromEmail])
       @ (if REPLY_TO cfg \<noteq> [] then
            (case validate_email w (REPLY_TO cfg) of
               Inl e \<Rightarrow> [InvalidReplyTo] | Inr v \<Rightarrow> [])
          else [])
       @ (if SMTP_HOST cfg \<noteq> [] \<and> \<not> getaddrinfo_ok w then [CannotResolve] else [])
       @ (if quick_connect_ok w then [] else [CannotConnect]))"

definition smtp_config_preflight :: "config \<Rightarrow> world \<Rightarrow> bool" where
  "smtp_config_preflight cfg w =
     (let errors = preflight_errors cfg w;
          errors = (if SMTP_DEEP_CHECK cfg \<and> errors = [] \<and> \<not> deep_login_ok w
                    then errors @ [LoginFailed] else errors)
      in errors = [])"

datatype abort =
    MissingConfig
  | MissingTemplate
  | CsvPreflightFailed
  | NoRecipients
  | SmtpPreflightFailed

text \<open>
  How a run ends: an early \<^verbatim>\<open>return\<close> before the send phase, an exception that
  leaves \<^verbatim>\<open>main\<close>, or the end of the loop.
\<close>

datatype outcome = Aborted abort | Raised py_error run_state | Finished run_state

definition initial_state :: run_state where
  "initial_state =
     \<lparr> sent = 0, failed = 0, invalid_total = 0, skipped = 0, smtp = 0, client_calls = 0,
       opened_sessions = [], closed_sessions = [], lost_sessions = [], send_calls = 0,
       outbox = [], draws = 0, sleeps = [], logs = [] \<rparr>"

definition load_suppressions :: "string list option \<Rightarrow> string set" where
  "load_suppressions file =
     (case file of
        None \<Rightarrow> {}
      | Some lines \<Rightarrow> set (map (\<lambda>l. lower (strip l)) (filter (\<lambda>l. strip l \<noteq> []) lines)))"

text \<open>
  The send phase, \<^verbatim>\<open>with smtp_client() as smtp:\<close> around the loop. The context manager
  is the session the first call returned: on leaving the block, normally or by an
  exception, that session is closed, whatever \<^verbatim>\<open>smtp\<close> is bound to by then.
\<close>

definition send_phase ::
  "config \<Rightarrow> stdlib \<Rightarrow> world \<Rightarrow> run_env \<Rightarrow> row list \<Rightarrow> outcome" where
  "send_phase cfg lib w env rows =
     (case smtp_client w 0 of
        ConnectError e \<Rightarrow> Raised (ConnectFailed e) (initial_state\<lparr> client_calls := 1 \<rparr>)
      | Connected \<Rightarrow>
          (let manager = 0;
               st0 = initial_state\<lparr> smtp := manager, client_calls := 1,
                                     opened_sessions := [manager] \<rparr>;
               (err, st1) = dispatch cfg lib w env 1 rows st0;
               st2 = st1\<lparr> closed_sessions := closed_sessions st1 @ [manager] \<rparr>
           in case err of
                Some e \<Rightarrow> Raised e st2
              | None \<Rightarrow> Finished st2))"

definition main :: "config \<Rightarrow> stdlib \<Rightarrow> files \<Rightarrow> world \<Rightarrow> outcome" where
  "main cfg lib fs w =
     (if SMTP_HOST cfg = [] \<or> SMTP_PORT cfg = 0 \<or> SMTP_USER cfg = [] \<or> SMTP_PASS cfg = []
         \<or> FROM_EMAIL cfg = []
      then Aborted MissingConfig
      else
        (case (html_template fs, text_template fs) of
           (Some html, Some text) \<Rightarrow>
             (let used = extract_placeholders [SUBJECT_TMPL cfg, html, text];
                  supp = load_suppressions (suppressions_file fs);
                  pause = float_round lib (60 / real (RATE_LIMIT_PER_MIN cfg))
              in if \<not> csv_preflight (recipients_csv fs) (sorted_required used)
                 then Aborted CsvPreflightFailed
                 else
                   (let rows = load_recipients (case recipients_csv fs of None \<Rightarrow> [] | Some c \<Rightarrow> c)
                    in if length rows = 0 then Aborted NoRecipients
                       else if \<not> smtp_config_preflight cfg w then Aborted SmtpPreflightFailed
                       else send_phase cfg lib w
                              \<lparr> subject_tmpl = SUBJECT_TMPL cfg, html_tmpl = html,
                                text_tmpl = text, used_keys = used, suppressions = supp,
                                pause_seconds = pause, total_rows = length rows \<rparr>
                              rows))
         | _ \<Rightarrow> Aborted MissingTemplate))"

section \<open>Auxiliary definitions for the statements\<close>

text \<open>The state a pass through the \<^verbatim>\<open>try\<close> statement leaves behind.\<close>

fun state_of :: "control \<Rightarrow> run_state" where
  "state_of (Break st) = st"
| "state_of (Continue st) = st"
| "state_of (Classified b st) = st"
| "state_of (Raise e st) = st"

text \<open>
  The failures for which the \<^verbatim>\<open>except\<close> clauses set \<^verbatim>\<open>is_temp\<close> to true without
  touching the session: a protocol rejection with a 4xx code and a reply that can be
  logged, and every exception that reaches the last clause, \<^verbatim>\<open>SMTPRecipientsRefused\<close>
  among them.
\<close>

definition classified_temporary :: "send_result \<Rightarrow> bool" where
  "classified_temporary r =
     (case r of
        ResponseException code reply \<Rightarrow> reply \<noteq> None \<and> 400 \<le> code \<and> code < 500
      | RecipientsRefused code e \<Rightarrow> True
      | OtherException e \<Rightarrow> True
      | _ \<Rightarrow> False)"


text \<open>
  What the statements about delays assume of the rounding: it is monotone and leaves
  unchanged the powers of two up to \<open>2 ^ 1023\<close> and the whole numbers up to
  \<open>2 ^ 53\<close>, as rounding to the nearest double-precision number does.
\<close>

definition float_rounding :: "(real \<Rightarrow> real) \<Rightarrow> bool" where
  "float_rounding f =
     (mono f \<and> (\<forall>k \<le> 1023. f (2 ^ k) = 2 ^ k) \<and> (\<forall>n \<le> 2 ^ 53. f (real n) = real n))"


text \<open>
  A complete configuration (with the program's default subject, rate limit and retry
  count, and dry-run off), a library, an environment and a message to run the model on.
  The counters and the sessions of a run do not depend on how the library renders a
  template, so the example library returns the template as it is; it adds exactly, and
  the runs below whose delays are stated draw a jitter of one eighth of a second, for
  which every sum is a binary fraction that float addition gives exactly.
\<close>

definition example_cfg :: config where
  "example_cfg =
     \<lparr> SMTP_HOST = ''smtp.example.com'', SMTP_PORT = 587, SMTP_SECURE = ''starttls'',
       SMTP_USER = ''user'', SMTP_PASS = ''secret'', FROM_NAME = ''Sender'',
       FROM_EMAIL = ''sender@example.com'', REPLY_TO = ''sender@example.com'',
       SUBJECT_TMPL = ''Hello ${name}'', ATTACHMENT_PATH = None, rate_limit_setting = 60,
       max_retries_setting = 3, DRY_RUN = False, UNSUBSCRIBE_MAILTO = [],
       UNSUBSCRIBE_URL = [], SMTP_DEEP_CHECK = False \<rparr>"

definition example_lib :: stdlib where
  "example_lib =
     \<lparr> safe_substitute = (\<lambda>tmpl subst. tmpl), formataddr = (\<lambda>(n, a). a),
       float_round = (\<lambda>x. x) \<rparr>"

definition example_world :: world where
  "example_world =
     \<lparr> validate_email = (\<lambda>a. Inr a), send_message = (\<lambda>n. Delivered),
       smtp_client = (\<lambda>n. Connected), uniform = (\<lambda>n. 1 / 10), make_msgid = (\<lambda>n. ''<id>''),
       formatdate = (\<lambda>n. ''now''), attach_file = (\<lambda>n. Inl ''unreadable''),
       getaddrinfo_ok = True, quick_connect_ok = True, deep_login_ok = True,
       name_first = True \<rparr>"

definition example_env :: run_env where
  "example_env =
     \<lparr> subject_tmpl = ''Hello ${name}'', html_tmpl = ''<p>Hi ${name}</p>'',
       text_tmpl = ''Hi ${name}'', used_keys = {''name''},
       suppressions = {''blocked@example.com''}, pause_seconds = 1, total_rows = 10 \<rparr>"

definition example_msg :: message where
  "example_msg =
     \<lparr> Subject = ''Hello'', From = ''sender@example.com'', Reply_To = ''sender@example.com'',
       Message_ID = ''<id>'', Date = ''now'', To = ''ann@example.com'',
       List_Unsubscribe = None, List_Unsubscribe_Post = None, text_body = ''Hi'',
       html_body = ''<p>Hi</p>'', attached = None \<rparr>"

text \<open>
  A record whose address the validator accepts (with a non-empty normalized form) and
  whose lower-cased normalized address is not in the suppression set.
\<close>

definition valid_unsuppressed :: "world \<Rightarrow> run_env \<Rightarrow> row \<Rightarrow> bool" where
  "valid_unsuppressed w env row =
     (case validate_email w (strip (get_or_empty row ''email'')) of
        Inl e \<Rightarrow> False
      | Inr addr \<Rightarrow> addr \<noteq> [] \<and> lower addr \<notin> suppressions env)"

text \<open>
  Inputs for the concrete runs: a setting of eight retries and one with dry-run on; a
  server that times out on every send, one that refuses the recipient with 550 on every
  send, one that drops the connection on every send, one that drops it on the first send
  only, and one where the first \<^verbatim>\<open>smtp_client()\<close> call fails at the login; a
  recipient table with the columns \<^verbatim>\<open>Email\<close> and \<^verbatim>\<open>Name\<close>, one with the column
  \<^verbatim>\<open>email\<close> alone, and one whose first address has a non-ASCII local part (the
  character of code E1, a with acute).
\<close>

definition retry8_cfg :: config where
  "retry8_cfg = example_cfg\<lparr> max_retries_setting := 8 \<rparr>"

definition dry_run_cfg :: config where
  "dry_run_cfg = example_cfg\<lparr> DRY_RUN := True \<rparr>"

definition timeout_world :: world where
  "timeout_world =
     example_world\<lparr> send_message := (\<lambda>n. OtherException ''timed out''),
                     uniform := (\<lambda>n. 1 / 8) \<rparr>"

definition refusing_world :: world where
  "refusing_world =
     example_world\<lparr> send_message := (\<lambda>n. RecipientsRefused 550 ''no such user'') \<rparr>"

definition example_files :: files where
  "example_files =
     \<lparr> html_template = Some ''<p>Hi ${name}</p>'', text_template = Some ''Hi ${name}'',
       suppressions_file = None,
       recipients_csv = Some [[''Email'', ''Name''], [''ann@example.com'', ''Ann'']] \<rparr>"


definition non_ascii_files :: files where
  "non_ascii_files =
     example_files\<lparr> recipients_csv :=
       Some [[''Email'', ''Name''], [CHR 0xE1 # ''nn@example.com'', ''Ann''],
             [''bob@example.com'', ''Bob'']] \<rparr>"

definition disconnecting_world :: world where
  "disconnecting_world =
     example_world\<lparr> send_message := (\<lambda>n. ServerDisconnected ''connection lost'') \<rparr>"

definition reconnecting_world :: world where
  "reconnecting_world =
     example_world\<lparr> send_message :=
       (\<lambda>n. if n = 0 then ServerDisconnected ''connection lost'' else Delivered) \<rparr>"


text \<open>The counters \<open>(sent, failed, skipped, invalid)\<close> a run ends with, if it got to the
  send phase, and the sessions it opened and closed.\<close>

fun counters :: "outcome \<Rightarrow> (nat \<times> nat \<times> nat \<times> nat) option" where
  "counters (Aborted r) = None"
| "counters (Raised e st) = Some (sent st, failed st, skipped st, invalid_total st)"
| "counters (Finished st) = Some (sent st, failed st, skipped st, invalid_total st)"

fun sessions :: "outcome \<Rightarrow> (nat list \<times> nat list) option" where
  "sessions (Aborted r) = None"
| "sessions (Raised e st) = Some (opened_sessions st, closed_sessions st)"
| "sessions (Finished st) = Some (opened_sessions st, closed_sessions st)"

text \<open>The exception a run ended with, and the number of \<^verbatim>\<open>send_message\<close> calls it made.\<close>

fun raised :: "outcome \<Rightarrow> py_error option" where
  "raised (Aborted r) = None"
| "raised (Raised e st) = Some e"
| "raised (Finished st) = None"

fun send_count :: "outcome \<Rightarrow> nat option" where
  "send_count (Aborted r) = None"
| "send_count (Raised e st) = Some (send_calls st)"
| "send_count (Finished st) = Some (send_calls st)"


section \<open>Properties of the required-field check\<close>

lemma blank_update_other:
  "k \<noteq> key \<Longrightarrow> blank (AList.update key v row) k = blank row k"
  by (simp add: blank_def get_or_empty_def update_conv')

lemma ensure_loop_untouched:
  "key0 \<notin> set keys \<Longrightarrow>
   map_of (fst (snd (ensure_loop fb i tot keys row lg))) key0 = map_of row key0"
  by (induction keys arbitrary: row lg)
     (auto simp: Let_def update_conv' split: option.splits)

lemma ensure_loop_ok_iff:
  "distinct keys \<Longrightarrow>
   fst (fst (ensure_loop fb i tot keys row lg)) \<longleftrightarrow>
     (\<forall>k\<in>set keys. blank row k \<longrightarrow> fb k \<noteq> None)"
proof (induction keys arbitrary: row lg)
  case Nil
  then show ?case by simp
next
  case (Cons key keys)
  then have d: "distinct keys" and nk: "key \<notin> set keys" by simp_all
  show ?case
  proof (cases "blank row key")
    case False
    then show ?thesis using Cons.IH [OF d] by (simp add: blank_def Let_def)
  next
    case True
    show ?thesis
    proof (cases "fb key")
      case None
      then show ?thesis using True by (auto simp: blank_def Let_def)
    next
      case (Some v)
      have "\<And>k. k \<in> set keys \<Longrightarrow> blank (AList.update key v row) k = blank row k"
        using nk blank_update_other by metis
      then show ?thesis using True Some Cons.IH [OF d, of "AList.update key v row"]
        by (auto simp: blank_def Let_def)
    qed
  qed
qed

lemma ensure_loop_ok_reason:
  "fst (fst (ensure_loop fb i tot keys row lg)) \<Longrightarrow>
   snd (fst (ensure_loop fb i tot keys row lg)) = []"
  by (induction keys arbitrary: row lg) (auto simp: Let_def split: option.splits if_splits)

lemma ensure_loop_fail:
  "distinct keys \<Longrightarrow> \<not> fst (fst (ensure_loop fb i tot keys row lg)) \<Longrightarrow>
   \<exists>k\<in>set keys. blank row k \<and> fb k = None \<and>
      snd (fst (ensure_loop fb i tot keys row lg)) = missing_msg i tot k"
proof (induction keys arbitrary: row lg)
  case Nil
  then show ?case by simp
next
  case (Cons key keys)
  then have d: "distinct keys" and nk: "key \<notin> set keys" by simp_all
  show ?case
  proof (cases "blank row key")
    case False
    then show ?thesis using Cons.IH [OF d, of row lg] Cons.prems(2)
      by (auto simp: blank_def Let_def)
  next
    case True
    show ?thesis
    proof (cases "fb key")
      case None
      then show ?thesis using True by (auto simp: blank_def Let_def)
    next
      case (Some v)
      let ?row = "AList.update key v row"
      let ?lg = "lg @ [(WARNING, fallback_msg i tot key v)]"
      have eq: "ensure_loop fb i tot (key # keys) row lg = ensure_loop fb i tot keys ?row ?lg"
        using True Some by (simp add: blank_def Let_def)
      have "\<not> fst (fst (ensure_loop fb i tot keys ?row ?lg))"
        using Cons.prems(2) eq by simp
      from Cons.IH [OF d this] obtain k where k: "k \<in> set keys" "blank ?row k" "fb k = None"
        "snd (fst (ensure_loop fb i tot keys ?row ?lg)) = missing_msg i tot k" by blast
      have "k \<noteq> key" using k(1) nk by auto
      then have "blank row k" using k(2) blank_update_other by metis
      then show ?thesis using k eq by auto
    qed
  qed
qed

lemma ensure_loop_log_mono:
  "set lg \<subseteq> set (snd (snd (ensure_loop fb i tot keys row lg)))"
proof (induction keys arbitrary: row lg)
  case Nil
  then show ?case by simp
next
  case (Cons key keys)
  show ?case
  proof (cases "blank row key")
    case False
    then show ?thesis using Cons.IH [where row = row and lg = lg]
      by (simp add: blank_def Let_def)
  next
    case True
    show ?thesis
    proof (cases "fb key")
      case None
      then show ?thesis using True by (auto simp: blank_def Let_def)
    next
      case (Some v)
      then show ?thesis
        using True Cons.IH [where row = "AList.update key v row"
            and lg = "lg @ [(WARNING, fallback_msg i tot key v)]"]
        by (auto simp: blank_def Let_def)
    qed
  qed
qed

lemma ensure_loop_filled:
  "distinct keys \<Longrightarrow> fst (fst (ensure_loop fb i tot keys row lg)) \<Longrightarrow>
   k \<in> set keys \<Longrightarrow> blank row k \<Longrightarrow>
   (\<exists>v. fb k = Some v \<and> map_of (fst (snd (ensure_loop fb i tot keys row lg))) k = Some v \<and>
      (WARNING, fallback_msg i tot k v) \<in> set (snd (snd (ensure_loop fb i tot keys row lg))))"
proof (induction keys arbitrary: row lg)
  case Nil
  then show ?case by simp
next
  case (Cons key keys)
  then have d: "distinct keys" and nk: "key \<notin> set keys" by simp_all
  show ?case
  proof (cases "blank row key")
    case False
    then have eq: "ensure_loop fb i tot (key # keys) row lg = ensure_loop fb i tot keys row lg"
      by (simp add: blank_def Let_def)
    have "k \<noteq> key" using False Cons.prems(4) by auto
    then have "k \<in> set keys" using Cons.prems(3) by simp
    then show ?thesis using Cons.IH [OF d, of row lg] Cons.prems eq by simp
  next
    case True
    show ?thesis
    proof (cases "fb key")
      case None
      then show ?thesis using True Cons.prems(2) by (auto simp: blank_def Let_def)
    next
      case (Some v)
      let ?row = "AList.update key v row"
      let ?lg = "lg @ [(WARNING, fallback_msg i tot key v)]"
      have eq: "ensure_loop fb i tot (key # keys) row lg = ensure_loop fb i tot keys ?row ?lg"
        using True Some by (simp add: blank_def Let_def)
      show ?thesis
      proof (cases "k = key")
        case True
        have "map_of (fst (snd (ensure_loop fb i tot keys ?row ?lg))) key = map_of ?row key"
          using nk by (rule ensure_loop_untouched)
        moreover have "(WARNING, fallback_msg i tot key v)
            \<in> set (snd (snd (ensure_loop fb i tot keys ?row ?lg)))"
          using ensure_loop_log_mono [where lg = ?lg and row = ?row and keys = keys] by auto
        ultimately show ?thesis using True Some eq by (simp add: update_conv')
      next
        case False
        then have "k \<in> set keys" using Cons.prems(3) by simp
        moreover have "blank ?row k" using False Cons.prems(4) blank_update_other by metis
        moreover have "fst (fst (ensure_loop fb i tot keys ?row ?lg))"
          using Cons.prems(2) eq by simp
        ultimately show ?thesis using Cons.IH [OF d, of ?row ?lg] eq by simp
      qed
    qed
  qed
qed

lemma ensure_loop_unchanged:
  "\<not> (k \<in> set keys \<and> blank row k) \<Longrightarrow>
   map_of (fst (snd (ensure_loop fb i tot keys row lg))) k = map_of row k"
proof (induction keys arbitrary: row lg)
  case Nil
  then show ?case by simp
next
  case (Cons key keys)
  show ?case
  proof (cases "blank row key")
    case False
    then show ?thesis using Cons.IH [of row lg] Cons.prems by (auto simp: blank_def Let_def)
  next
    case True
    show ?thesis
    proof (cases "fb key")
      case None
      then show ?thesis using True by (auto simp: blank_def Let_def)
    next
      case (Some v)
      have ne: "k \<noteq> key" using True Cons.prems by auto
      then have "\<not> (k \<in> set keys \<and> blank (AList.update key v row) k)"
        using Cons.prems blank_update_other by (metis list.set_intros(2))
      from Cons.IH [OF this] show ?thesis using True Some ne
        by (simp add: blank_def Let_def update_conv')
    qed
  qed
qed

lemma set_keys_to_check:
  "set (keys_to_check nf used) = required_fields used - {''email''}"
  by (auto simp: keys_to_check_def required_fields_def iter_order_def)

lemma distinct_keys_to_check: "distinct (keys_to_check nf used)"
  by (simp add: keys_to_check_def iter_order_def)

lemma missing_msg_inject: "missing_msg i tot k = missing_msg i tot k' \<Longrightarrow> k = k'"
  by (simp add: missing_msg_def)

lemma missing_msg_nonempty: "missing_msg i tot k \<noteq> []"
  by (simp add: missing_msg_def)

lemma FALLBACKS_defined: "k \<in> required_fields used - {''email''} \<Longrightarrow> FALLBACKS k \<noteq> None"
  by (auto simp: required_fields_def FALLBACKS_def)

lemma ensure_required_fields_ok: "result_ok (ensure_required_fields nf row used i tot)"
  unfolding result_ok_def ensure_required_fields_def ensure_required_fields_with_def
  using ensure_loop_ok_iff [OF distinct_keys_to_check, of FALLBACKS i tot nf used row "[]"]
    FALLBACKS_defined [of _ used]
  by (simp add: set_keys_to_check)

lemma ensure_loop_log_entries:
  "distinct keys \<Longrightarrow> e \<in> set (snd (snd (ensure_loop fb i tot keys row lg))) \<Longrightarrow>
   e \<in> set lg \<or> (\<exists>k\<in>set keys. \<exists>v. blank row k \<and> fb k = Some v
                       \<and> e = (WARNING, fallback_msg i tot k v))"
proof (induction keys arbitrary: row lg)
  case Nil
  then show ?case by simp
next
  case (Cons key keys)
  then have d: "distinct keys" and nk: "key \<notin> set keys" by simp_all
  show ?case
  proof (cases "blank row key")
    case False
    then have eq: "ensure_loop fb i tot (key # keys) row lg = ensure_loop fb i tot keys row lg"
      by (simp add: blank_def Let_def)
    from Cons.IH [OF d, of row lg] Cons.prems(2) show ?thesis unfolding eq by auto
  next
    case True
    show ?thesis
    proof (cases "fb key")
      case None
      then show ?thesis using True Cons.prems(2) by (auto simp: blank_def Let_def)
    next
      case (Some v)
      let ?row = "AList.update key v row"
      let ?lg = "lg @ [(WARNING, fallback_msg i tot key v)]"
      have eq: "ensure_loop fb i tot (key # keys) row lg = ensure_loop fb i tot keys ?row ?lg"
        using True Some by (simp add: blank_def Let_def)
      have "e \<in> set ?lg \<or> (\<exists>k\<in>set keys. \<exists>v'. blank ?row k \<and> fb k = Some v'
                       \<and> e = (WARNING, fallback_msg i tot k v'))"
        using Cons.IH [OF d, of ?row ?lg] Cons.prems(2) unfolding eq by simp
      then show ?thesis
      proof
        assume "e \<in> set ?lg"
        then show ?thesis using True Some by auto
      next
        assume "\<exists>k\<in>set keys. \<exists>v'. blank ?row k \<and> fb k = Some v'
                       \<and> e = (WARNING, fallback_msg i tot k v')"
        then obtain k v' where k: "k \<in> set keys" "blank ?row k" "fb k = Some v'"
          "e = (WARNING, fallback_msg i tot k v')" by blast
        have "k \<noteq> key" using k(1) nk by auto
        then have "blank row k" using k(2) blank_update_other by metis
        then show ?thesis using k by auto
      qed
    qed
  qed
qed

text \<open>
  Claim C6. \<^verbatim>\<open>ensure_required_fields\<close> enforces exactly the required-field set
  \<open>{email} \<union> (usedKeys \<inter> {name, company})\<close>: the keys it examines are the required
  keys other than \<^verbatim>\<open>email\<close>. For every record it succeeds; each required key other
  than \<^verbatim>\<open>email\<close> that is missing or blank holds its fallback value afterwards and a
  warning was logged for it; nothing else is logged; every other field, the email among
  them, is left as it was, so a key that no template uses is never an error. The
  function is the loop run with the program's fallback table; run with any table, the
  loop succeeds exactly when every required key that is missing or blank has a fallback,
  and fails otherwise with a reason that names a required key that is blank and has no
  fallback, the record's position and the total count; a key that no template uses is
  never named, and the email field is never changed.
\<close>

theorem ensure_required_fields_required_set:
  "required_fields used = {''email''} \<union> (used \<inter> {''name'', ''company''})
   \<and> set (keys_to_check nf used) = required_fields used - {''email''}
   \<and> ensure_required_fields nf row used i tot
        = ensure_required_fields_with FALLBACKS nf row used i tot
   \<and> result_ok (ensure_required_fields nf row used i tot)
   \<and> (\<forall>k \<in> required_fields used - {''email''}. blank row k \<longrightarrow>
        (\<exists>v. FALLBACKS k = Some v
           \<and> map_of (result_row (ensure_required_fields nf row used i tot)) k = Some v
           \<and> (WARNING, fallback_msg i tot k v)
                \<in> set (result_log (ensure_required_fields nf row used i tot))))
   \<and> (\<forall>e \<in> set (result_log (ensure_required_fields nf row used i tot)).
        \<exists>k \<in> required_fields used - {''email''}. \<exists>v. blank row k \<and> FALLBACKS k = Some v
           \<and> e = (WARNING, fallback_msg i tot k v))
   \<and> (\<forall>k. \<not> (k \<in> required_fields used - {''email''} \<and> blank row k) \<longrightarrow>
        map_of (result_row (ensure_required_fields nf row used i tot)) k = map_of row k)
   \<and> map_of (result_row (ensure_required_fields nf row used i tot)) ''email''
        = map_of row ''email''
   \<and> (result_ok (ensure_required_fields_with fb nf row used i tot) \<longleftrightarrow>
        (\<forall>k \<in> required_fields used - {''email''}. blank row k \<longrightarrow> fb k \<noteq> None))
   \<and> (\<not> result_ok (ensure_required_fields_with fb nf row used i tot) \<longrightarrow>
        (\<exists>k \<in> required_fields used - {''email''}. blank row k \<and> fb k = None
           \<and> result_reason (ensure_required_fields_with fb nf row used i tot)
               = missing_msg i tot k))
   \<and> (\<forall>k. k \<notin> used \<longrightarrow>
        result_reason (ensure_required_fields_with fb nf row used i tot) \<noteq> missing_msg i tot k)
   \<and> map_of (result_row (ensure_required_fields_with fb nf row used i tot)) ''email''
        = map_of row ''email''"
proof -
  let ?keys = "keys_to_check nf used"
  let ?req = "required_fields used - {''email''}"
  let ?E = "ensure_required_fields nf row used i tot"
  let ?res = "ensure_required_fields_with fb nf row used i tot"
  have E: "?E = ensure_loop FALLBACKS i tot ?keys row []"
    by (simp add: ensure_required_fields_def ensure_required_fields_with_def)
  have res: "?res = ensure_loop fb i tot ?keys row []"
    by (simp add: ensure_required_fields_with_def)
  have d: "distinct ?keys" by (rule distinct_keys_to_check)
  have s: "set ?keys = ?req" by (rule set_keys_to_check)
  have p1: "required_fields used = {''email''} \<union> (used \<inter> {''name'', ''company''})"
    by (simp add: required_fields_def)
  have p2: "?E = ensure_required_fields_with FALLBACKS nf row used i tot"
    by (simp add: ensure_required_fields_def)
  have ok: "result_ok ?E" by (rule ensure_required_fields_ok)
  have okl: "fst (fst (ensure_loop FALLBACKS i tot ?keys row []))"
    using ok unfolding result_ok_def E .
  have a2: "\<forall>k \<in> ?req. blank row k \<longrightarrow>
        (\<exists>v. FALLBACKS k = Some v \<and> map_of (result_row ?E) k = Some v
           \<and> (WARNING, fallback_msg i tot k v) \<in> set (result_log ?E))"
    unfolding result_row_def result_log_def E
    using ensure_loop_filled [OF d okl] by (simp only: s) blast
  have a5: "\<forall>e \<in> set (result_log ?E).
        \<exists>k \<in> ?req. \<exists>v. blank row k \<and> FALLBACKS k = Some v
           \<and> e = (WARNING, fallback_msg i tot k v)"
  proof
    fix e assume "e \<in> set (result_log ?E)"
    then have "e \<in> set (snd (snd (ensure_loop FALLBACKS i tot ?keys row [])))"
      unfolding result_log_def E .
    from ensure_loop_log_entries [OF d this]
    show "\<exists>k \<in> ?req. \<exists>v. blank row k \<and> FALLBACKS k = Some v
           \<and> e = (WARNING, fallback_msg i tot k v)"
      by (simp only: s) auto
  qed
  have a3: "\<forall>k. \<not> (k \<in> ?req \<and> blank row k) \<longrightarrow> map_of (result_row ?E) k = map_of row k"
    unfolding result_row_def E
    using ensure_loop_unchanged [of _ ?keys row FALLBACKS i tot "[]"] by (simp only: s) blast
  have a4: "map_of (result_row ?E) ''email'' = map_of row ''email''"
    using a3 by blast
  have b1: "result_ok ?res \<longleftrightarrow> (\<forall>k \<in> ?req. blank row k \<longrightarrow> fb k \<noteq> None)"
    unfolding result_ok_def res using ensure_loop_ok_iff [OF d, of fb i tot row "[]"]
    by (simp only: s)
  have b2: "\<not> result_ok ?res \<longrightarrow>
        (\<exists>k \<in> ?req. blank row k \<and> fb k = None \<and> result_reason ?res = missing_msg i tot k)"
    unfolding result_ok_def result_reason_def res
    using ensure_loop_fail [OF d, of fb i tot row "[]"] by (simp only: s) blast
  have b3: "\<forall>k. k \<notin> used \<longrightarrow> result_reason ?res \<noteq> missing_msg i tot k"
  proof (intro allI impI)
    fix k assume k: "k \<notin> used"
    show "result_reason ?res \<noteq> missing_msg i tot k"
    proof (cases "result_ok ?res")
      case True
      then have "result_reason ?res = []"
        unfolding result_ok_def result_reason_def res by (rule ensure_loop_ok_reason)
      then show ?thesis using missing_msg_nonempty [of i tot k] by simp
    next
      case False
      with b2 obtain k' where k': "k' \<in> ?req" "result_reason ?res = missing_msg i tot k'"
        by blast
      then have "k' \<in> used" by (auto simp: required_fields_def)
      then have "k' \<noteq> k" using k by auto
      then show ?thesis using k'(2) missing_msg_inject by metis
    qed
  qed
  have b4: "map_of (result_row ?res) ''email'' = map_of row ''email''"
    unfolding result_row_def res
    using ensure_loop_unchanged [of "''email''" ?keys row fb i tot "[]"] by (simp only: s) blast
  show ?thesis
    by (intro conjI) (rule p1 s p2 ok a2 a5 a3 a4 b1 b2 b3 b4)+
qed

text \<open>
  The theorem at a record whose \<^verbatim>\<open>name\<close> is blank: the program's function fills the
  name with \<^verbatim>\<open>there\<close> and logs the warning; the loop run with an empty table fails
  and names the key.
\<close>

theorem ensure_required_fields_required_set_witness:
  "blank [(''email'', ''a@example.com''), (''name'', '' '')] ''name''
   \<and> ''name'' \<in> required_fields {''name''} - {''email''}
   \<and> result_ok (ensure_required_fields True
        [(''email'', ''a@example.com''), (''name'', '' '')] {''name''} 1 2)
   \<and> map_of (result_row (ensure_required_fields True
        [(''email'', ''a@example.com''), (''name'', '' '')] {''name''} 1 2)) ''name'' = Some ''there''
   \<and> (WARNING, fallback_msg 1 2 ''name'' ''there'')
        \<in> set (result_log (ensure_required_fields True
             [(''email'', ''a@example.com''), (''name'', '' '')] {''name''} 1 2))
   \<and> \<not> result_ok (ensure_required_fields_with Map.empty True
        [(''email'', ''a@example.com''), (''name'', '' '')] {''name''} 1 2)
   \<and> result_reason (ensure_required_fields_with Map.empty True
        [(''email'', ''a@example.com''), (''name'', '' '')] {''name''} 1 2)
       = missing_msg 1 2 ''name''"
proof -
  let ?row = "[(''email'', ''a@example.com''), (''name'', '' '')]"
  let ?E = "ensure_required_fields True ?row {''name''} 1 2"
  let ?R2 = "ensure_required_fields_with Map.empty True ?row {''name''} 1 2"
  note t = ensure_required_fields_required_set
      [where used = "{''name''}" and nf = True and row = ?row and i = 1 and tot = 2
        and fb = Map.empty]
  note ok1 = t [THEN conjunct2, THEN conjunct2, THEN conjunct2, THEN conjunct1]
  note filled1 = t [THEN conjunct2, THEN conjunct2, THEN conjunct2, THEN conjunct2,
      THEN conjunct1]
  note rest = t [THEN conjunct2, THEN conjunct2, THEN conjunct2, THEN conjunct2,
      THEN conjunct2, THEN conjunct2, THEN conjunct2, THEN conjunct2]
  note ok_iff2 = rest [THEN conjunct1]
  note fail2 = rest [THEN conjunct2, THEN conjunct1]
  have b: "blank ?row ''name''"
    by (simp add: blank_def get_or_empty_def strip_def isspace_def)
  have req: "required_fields {''name''} - {''email''} = {''name''}"
    by (auto simp: required_fields_def)
  have m: "''name'' \<in> required_fields {''name''} - {''email''}"
    by (simp only: req insertI1)
  have f: "FALLBACKS ''name'' = Some ''there''"
    by (simp add: FALLBACKS_def)
  obtain v where v: "FALLBACKS ''name'' = Some v" "map_of (result_row ?E) ''name'' = Some v"
      "(WARNING, fallback_msg 1 2 ''name'' v) \<in> set (result_log ?E)"
    using filled1 m b by blast
  have vt: "v = ''there''" using v(1) f by simp
  have row1: "map_of (result_row ?E) ''name'' = Some ''there''"
    using v(2) vt by simp
  have log1: "(WARNING, fallback_msg 1 2 ''name'' ''there'') \<in> set (result_log ?E)"
    using v(3) vt by simp
  have nok2: "\<not> result_ok ?R2"
    unfolding ok_iff2 req using b by simp
  obtain k where k: "k \<in> required_fields {''name''} - {''email''}"
      "result_reason ?R2 = missing_msg 1 2 k"
    using fail2 nok2 by blast
  have "k = ''name''" using k(1) unfolding req by simp
  then have reason2: "result_reason ?R2 = missing_msg 1 2 ''name''"
    using k(2) by simp
  show ?thesis using b m ok1 row1 log1 nok2 reason2 by (intro conjI)
qed

section \<open>Properties of the dispatch loop\<close>

lemma field_completion_send_step:
  "field_completion cfg lib w env i email row st =
     send_step cfg lib w env i email
       (result_row (ensure_required_fields (name_first w) row (used_keys env) i (total_rows env)))
       (st\<lparr> logs := logs st
             @ result_log (ensure_required_fields (name_first w) row (used_keys env) i
                 (total_rows env)) \<rparr>)"
  by (simp add: field_completion_def Let_def ensure_required_fields_ok)

lemma load_suppressions_member:
  "a \<in> load_suppressions (Some lines) \<longleftrightarrow>
     (\<exists>l \<in> set lines. strip l \<noteq> [] \<and> lower (strip l) = a)"
  by (auto simp: load_suppressions_def)

lemma process_recipient_valid:
  assumes "validate_email w (strip (get_or_empty row ''email'')) = Inr addr" "addr \<noteq> []"
  shows "process_recipient cfg lib w env i row st =
     (if lower addr \<in> suppressions env then
        (None, st\<lparr> skipped := skipped st + 1,
                    logs := logs st @ [(INFO, tag i (total_rows env) @ ''Suppressed: ''
                       @ strip (get_or_empty row ''email'') @ ''. Skipping.'')] \<rparr>)
      else field_completion cfg lib w env i (strip (get_or_empty row ''email''))
             (AList.update ''email'' addr row) st)"
  using assms by (simp add: process_recipient_def normalize_email_def Let_def)

lemma upt_attempt: "a \<le> m \<Longrightarrow> [a ..< Suc m] = a # [Suc a ..< Suc m]"
  by (simp add: upt_conv_Cons)

lemma attempts_Cons: "attempts cfg = 1 # [Suc 1 ..< Suc (MAX_RETRIES cfg)]"
proof -
  have "1 \<le> MAX_RETRIES cfg" by (simp add: MAX_RETRIES_def)
  then have "[1 ..< Suc (MAX_RETRIES cfg)] = 1 # [Suc 1 ..< Suc (MAX_RETRIES cfg)]"
    by (rule upt_attempt)
  then show ?thesis by (simp add: attempts_def del: upt_Suc)
qed

lemma retry_loop_upt:
  "a \<le> m \<Longrightarrow> retry_loop cfg lib w i tot email msg [a ..< Suc m] st =
     (case try_send cfg w i tot email msg st of
        Break st' \<Rightarrow> (None, st')
      | Continue st' \<Rightarrow> retry_loop cfg lib w i tot email msg [Suc a ..< Suc m] st'
      | Raise err st' \<Rightarrow> (Some err, st')
      | Classified is_temp st' \<Rightarrow>
          if a < MAX_RETRIES cfg \<and> is_temp then
            (case sleep_time lib a (uniform w (draws st')) of
               Inl err \<Rightarrow> (Some err, st'\<lparr> draws := draws st' + 1 \<rparr>)
             | Inr delay \<Rightarrow>
                 retry_loop cfg lib w i tot email msg [Suc a ..< Suc m]
                   (st'\<lparr> draws := draws st' + 1, sleeps := sleeps st' @ [delay] \<rparr>))
          else (None, st'\<lparr> failed := failed st' + 1 \<rparr>))"
  by (simp only: upt_attempt retry_loop.simps)

lemma try_send_dry:
  "DRY_RUN cfg \<Longrightarrow> try_send cfg w i tot email msg st =
     Break (st\<lparr> skipped := skipped st + 1,
                logs := logs st @ [(INFO, tag i tot @ ''DRY-RUN to '' @ email
                                            @ '' (skipped sending)'')] \<rparr>)"
  by (simp add: try_send_def)

lemma try_send_temporary:
  "\<not> DRY_RUN cfg \<Longrightarrow> classified_temporary (send_message w (send_calls st)) \<Longrightarrow>
   \<exists>st'. try_send cfg w i tot email msg st = Classified True st'
     \<and> send_calls st' = send_calls st + 1 \<and> sent st' = sent st \<and> failed st' = failed st
     \<and> skipped st' = skipped st \<and> invalid_total st' = invalid_total st
     \<and> draws st' = draws st \<and> sleeps st' = sleeps st"
  by (auto simp add: try_send_def Let_def classified_temporary_def
      split: send_result.splits option.splits)


lemma sleep_time_Inr:
  "a \<le> 1024 \<Longrightarrow>
   sleep_time lib a j = Inr (min 60 (float_round lib (2 ^ (a - 1) + j)))"
  by (simp add: sleep_time_def)


lemma retry_all_temporary:
  assumes nd: "\<not> DRY_RUN cfg" and m: "MAX_RETRIES cfg \<le> 1025"
  shows "k = MAX_RETRIES cfg - a \<Longrightarrow> a \<le> MAX_RETRIES cfg \<Longrightarrow>
    \<forall>n \<ge> send_calls st. classified_temporary (send_message w n) \<Longrightarrow>
    \<exists>st'. retry_loop cfg lib w i tot email msg [a ..< MAX_RETRIES cfg + 1] st = (None, st')
      \<and> send_calls st' = send_calls st + (MAX_RETRIES cfg + 1 - a)
      \<and> failed st' = failed st + 1 \<and> sent st' = sent st \<and> skipped st' = skipped st
      \<and> draws st' = draws st + (MAX_RETRIES cfg - a)
      \<and> sleeps st' = sleeps st
          @ map (\<lambda>b. min 60 (float_round lib (2 ^ (b - 1) + uniform w (draws st + (b - a)))))
              [a ..< MAX_RETRIES cfg]"
proof (induction k arbitrary: a st)
  case 0
  then have a: "a = MAX_RETRIES cfg" by simp
  obtain st' where st': "try_send cfg w i tot email msg st = Classified True st'"
    "send_calls st' = send_calls st + 1" "sent st' = sent st" "failed st' = failed st"
    "skipped st' = skipped st" "draws st' = draws st" "sleeps st' = sleeps st"
    using try_send_temporary [OF nd, of w st] "0.prems"(3) by blast
  show ?case using st' a by (simp add: retry_loop_upt del: upt_Suc)
next
  case (Suc k)
  then have lt: "a < MAX_RETRIES cfg" by simp
  then have a1024: "a \<le> 1024" using m by simp
  obtain st' where st': "try_send cfg w i tot email msg st = Classified True st'"
    "send_calls st' = send_calls st + 1" "sent st' = sent st" "failed st' = failed st"
    "skipped st' = skipped st" "draws st' = draws st" "sleeps st' = sleeps st"
    using try_send_temporary [OF nd, of w st] Suc.prems(3) by blast
  let ?d = "min 60 (float_round lib (2 ^ (a - 1) + uniform w (draws st)))"
  let ?st = "st'\<lparr> draws := draws st' + 1, sleeps := sleeps st' @ [?d] \<rparr>"
  have k: "k = MAX_RETRIES cfg - (a + 1)" using Suc.prems(1) by simp
  have le: "a + 1 \<le> MAX_RETRIES cfg" using lt by simp
  have all: "\<forall>n \<ge> send_calls ?st. classified_temporary (send_message w n)"
    using Suc.prems(3) st'(2) by simp
  from Suc.IH [OF k le all] obtain st2 where st2:
    "retry_loop cfg lib w i tot email msg [a + 1 ..< MAX_RETRIES cfg + 1] ?st = (None, st2)"
    "send_calls st2 = send_calls ?st + (MAX_RETRIES cfg + 1 - (a + 1))"
    "failed st2 = failed ?st + 1" "sent st2 = sent ?st" "skipped st2 = skipped ?st"
    "draws st2 = draws ?st + (MAX_RETRIES cfg - (a + 1))"
    "sleeps st2 = sleeps ?st
       @ map (\<lambda>b. min 60 (float_round lib (2 ^ (b - 1) + uniform w (draws ?st + (b - (a + 1))))))
           [a + 1 ..< MAX_RETRIES cfg]"
    by blast
  have eq: "retry_loop cfg lib w i tot email msg [a ..< MAX_RETRIES cfg + 1] st
        = retry_loop cfg lib w i tot email msg [a + 1 ..< MAX_RETRIES cfg + 1] ?st"
    using st'(1,6) lt Suc.prems(2) a1024
    by (simp add: retry_loop_upt sleep_time_Inr del: upt_Suc)
  have shift: "map (\<lambda>b. min 60 (float_round lib
                  (2 ^ (b - 1) + uniform w (draws ?st + (b - (a + 1))))))
                [a + 1 ..< MAX_RETRIES cfg]
      = map (\<lambda>b. min 60 (float_round lib (2 ^ (b - 1) + uniform w (draws st + (b - a)))))
                [a + 1 ..< MAX_RETRIES cfg]"
    using st'(6) by (intro map_cong) (auto simp: Suc_diff_Suc)
  have split: "[a ..< MAX_RETRIES cfg] = a # [a + 1 ..< MAX_RETRIES cfg]"
    using lt by (simp add: upt_conv_Cons)
  have sl: "sleeps st2 = sleeps st
          @ map (\<lambda>b. min 60 (float_round lib (2 ^ (b - 1) + uniform w (draws st + (b - a)))))
              [a ..< MAX_RETRIES cfg]"
    unfolding st2(7) shift split using st'(7) by simp
  have r: "retry_loop cfg lib w i tot email msg [a ..< MAX_RETRIES cfg + 1] st = (None, st2)"
    using eq st2(1) by simp
  have sc: "send_calls st2 = send_calls st + (MAX_RETRIES cfg + 1 - a)"
    using st2(2) st'(2) lt by simp
  have fl: "failed st2 = failed st + 1" using st2(3) st'(4) by simp
  have se: "sent st2 = sent st" using st2(4) st'(3) by simp
  have sk: "skipped st2 = skipped st" using st2(5) st'(5) by simp
  have dr: "draws st2 = draws st + (MAX_RETRIES cfg - a)"
    using st2(6) st'(6) lt by simp
  show ?case using r sc fl se sk dr sl by blast
qed

text \<open>
  Claim C10. Under the program's fallback table, which has a value for \<^verbatim>\<open>name\<close> and
  for \<^verbatim>\<open>company\<close>, \<^verbatim>\<open>ensure_required_fields\<close> succeeds for every record, every
  used-key set and every iteration order; so the field-completion step of the loop never
  takes its failure branch: it always continues with the send step.
\<close>

theorem fallbacks_make_field_check_total:
  "result_ok (ensure_required_fields nf row used i tot)
   \<and> FALLBACKS ''name'' \<noteq> None \<and> FALLBACKS ''company'' \<noteq> None
   \<and> field_completion cfg lib w env j email row st =
       send_step cfg lib w env j email
         (result_row (ensure_required_fields (name_first w) row (used_keys env) j (total_rows env)))
         (st\<lparr> logs := logs st
               @ result_log (ensure_required_fields (name_first w) row (used_keys env) j
                   (total_rows env)) \<rparr>)"
  using ensure_required_fields_ok [of nf row used i tot]
    field_completion_send_step [of cfg lib w env j email row st]
  by (simp add: FALLBACKS_def)

text \<open>The theorem at a record that lacks both \<^verbatim>\<open>name\<close> and \<^verbatim>\<open>company\<close>.\<close>

theorem fallbacks_make_field_check_total_witness:
  "result_ok (ensure_required_fields True [(''email'', ''ann@example.com'')]
     {''name'', ''company''} 1 1)"
  using fallbacks_make_field_check_total [of True "[(''email'', ''ann@example.com'')]" "{''name'', ''company''}" 1 1
      example_cfg example_lib example_world example_env 1 "''ann@example.com''" initial_state]
  by (rule conjunct1)

text \<open>
  Claim C9. For a fixed record, fixed templates and a fixed configuration, the subject,
  the text body and the HTML body of the built message (or the error raised) are the
  same in any two invocations, whatever message identifier, date and attachment bytes
  the environment supplies to each.
\<close>

theorem build_message_rendering_deterministic:
  "map_sum id (\<lambda>(m, lg). (Subject m, text_body m, html_body m))
     (build_message cfg lib w1 i1 row subject html text)
   = map_sum id (\<lambda>(m, lg). (Subject m, text_body m, html_body m))
     (build_message cfg lib w2 i2 row subject html text)"
  by (simp add: build_message_def Let_def split: option.splits)

text \<open>The theorem at two environments that give different identifiers and dates.\<close>

theorem build_message_rendering_deterministic_witness:
  "map_sum id (\<lambda>(m, lg). (Subject m, text_body m, html_body m))
     (build_message example_cfg example_lib example_world 1
        [(''email'', ''ann@example.com''), (''name'', ''Ann'')]
        ''Hello ${name}'' ''<p>Hi ${name}</p>'' ''Hi ${name}'')
   = map_sum id (\<lambda>(m, lg). (Subject m, text_body m, html_body m))
     (build_message example_cfg example_lib
        (example_world\<lparr> make_msgid := (\<lambda>n. ''<other>''), formatdate := (\<lambda>n. ''later'') \<rparr>) 2
        [(''email'', ''ann@example.com''), (''name'', ''Ann'')]
        ''Hello ${name}'' ''<p>Hi ${name}</p>'' ''Hi ${name}'')"
  by (rule build_message_rendering_deterministic)

text \<open>
  Claim C5. For a recipient with a valid address: when the lower-cased normalized
  address is in the suppression set, \<open>skipped\<close> goes up by one, no other counter
  changes, no \<^verbatim>\<open>send_message\<close> call is made and nothing is delivered; otherwise the
  recipient proceeds to the field-completion step with the normalized address stored in
  the record. Membership is case-insensitive: the set holds the trimmed, lower-cased
  non-blank lines of the suppression file, and the address is lower-cased before the
  test.
\<close>

theorem suppressed_recipient_skipped:
  assumes "validate_email w (strip (get_or_empty row ''email'')) = Inr addr" and "addr \<noteq> []"
  shows "(lower addr \<in> suppressions env \<longrightarrow>
            process_recipient cfg lib w env i row st =
              (None, st\<lparr> skipped := skipped st + 1,
                          logs := logs st @ [(INFO, tag i (total_rows env) @ ''Suppressed: ''
                             @ strip (get_or_empty row ''email'') @ ''. Skipping.'')] \<rparr>)
          \<and> skipped (snd (process_recipient cfg lib w env i row st)) = skipped st + 1
          \<and> sent (snd (process_recipient cfg lib w env i row st)) = sent st
          \<and> failed (snd (process_recipient cfg lib w env i row st)) = failed st
          \<and> invalid_total (snd (process_recipient cfg lib w env i row st)) = invalid_total st
          \<and> send_calls (snd (process_recipient cfg lib w env i row st)) = send_calls st
          \<and> outbox (snd (process_recipient cfg lib w env i row st)) = outbox st)
       \<and> (lower addr \<notin> suppressions env \<longrightarrow>
            process_recipient cfg lib w env i row st =
              field_completion cfg lib w env i (strip (get_or_empty row ''email''))
                (AList.update ''email'' addr row) st)
       \<and> (lower addr \<in> load_suppressions (Some lines) \<longleftrightarrow>
            (\<exists>l \<in> set lines. strip l \<noteq> [] \<and> lower (strip l) = lower addr))"
  using process_recipient_valid [OF assms, of cfg lib env i st]
    load_suppressions_member [of "lower addr" lines]
  by simp

text \<open>
  The theorem at an address in mixed case, once with a suppression file that lists it in
  another case and once with a set that does not hold it.
\<close>

lemma lower_Ann: "lower ''Ann@Example.COM'' = ''ann@example.com''"
  by code_simp
lemma strip_Ann: "strip ''Ann@Example.COM'' = ''Ann@Example.COM''"
  by (simp add: strip_def isspace_def)
lemma supp_Ann: "load_suppressions (Some [''  ann@EXAMPLE.com\<newline>'', ''\<newline>''])
    = {''ann@example.com''}"
  by code_simp

theorem suppressed_recipient_skipped_witness:
  "validate_email example_world (strip (get_or_empty [(''email'', ''Ann@Example.COM'')] ''email''))
     = Inr ''Ann@Example.COM''
   \<and> ''Ann@Example.COM'' \<noteq> []
   \<and> lower ''Ann@Example.COM''
       \<in> load_suppressions (Some [''  ann@EXAMPLE.com\<newline>'', ''\<newline>''])
   \<and> skipped (snd (process_recipient example_cfg example_lib example_world
        (example_env\<lparr> suppressions :=
           load_suppressions (Some [''  ann@EXAMPLE.com\<newline>'', ''\<newline>'']) \<rparr>) 1
        [(''email'', ''Ann@Example.COM'')] initial_state)) = 1
   \<and> send_calls (snd (process_recipient example_cfg example_lib example_world
        (example_env\<lparr> suppressions :=
           load_suppressions (Some [''  ann@EXAMPLE.com\<newline>'', ''\<newline>'']) \<rparr>) 1
        [(''email'', ''Ann@Example.COM'')] initial_state)) = 0
   \<and> lower ''Ann@Example.COM'' \<notin> suppressions example_env
   \<and> process_recipient example_cfg example_lib example_world example_env 1
        [(''email'', ''Ann@Example.COM'')] initial_state
      = field_completion example_cfg example_lib example_world example_env 1
          ''Ann@Example.COM'' [(''email'', ''Ann@Example.COM'')] initial_state"
proof -
  let ?row = "[(''email'', ''Ann@Example.COM'')]"
  let ?lines = "[''  ann@EXAMPLE.com\<newline>'', ''\<newline>'']"
  let ?env = "example_env\<lparr> suppressions := load_suppressions (Some ?lines) \<rparr>"
  have g: "strip (get_or_empty ?row ''email'') = ''Ann@Example.COM''"
    by (simp add: get_or_empty_def strip_Ann)
  have v: "validate_email example_world (strip (get_or_empty ?row ''email''))
      = Inr ''Ann@Example.COM''"
    by (simp add: g example_world_def)
  have ne: "''Ann@Example.COM'' \<noteq> []" by simp
  have m: "lower ''Ann@Example.COM'' \<in> suppressions ?env"
    by (simp add: lower_Ann supp_Ann)
  have nm: "lower ''Ann@Example.COM'' \<notin> suppressions example_env"
    by (simp add: lower_Ann example_env_def)
  have s0: "skipped initial_state = 0" "send_calls initial_state = 0"
    by (simp_all add: initial_state_def)
  note t1 = suppressed_recipient_skipped [OF v ne, of ?env example_cfg example_lib 1 initial_state ?lines]
  note sup = t1 [THEN conjunct1, THEN mp, OF m]
  note t2 = suppressed_recipient_skipped [OF v ne, of example_env example_cfg example_lib 1 initial_state ?lines]
  note fc = t2 [THEN conjunct2, THEN conjunct1, THEN mp, OF nm]
  have u: "AList.update ''email'' ''Ann@Example.COM'' ?row = ?row" by simp
  show ?thesis using v ne m nm sup fc by (simp add: s0 g u)
qed

section \<open>Backoff\<close>

lemma float_rounding_mono: "float_rounding f \<Longrightarrow> x \<le> y \<Longrightarrow> f x \<le> f y"
  by (simp add: float_rounding_def mono_def)

lemma float_rounding_pow: "float_rounding f \<Longrightarrow> k \<le> 1023 \<Longrightarrow> f (2 ^ k) = 2 ^ k"
  by (simp add: float_rounding_def)

lemma float_rounding_nat: "float_rounding f \<Longrightarrow> n \<le> 2 ^ 53 \<Longrightarrow> f (real n) = real n"
  by (simp add: float_rounding_def)

lemma float_rounding_id: "float_rounding (\<lambda>x. x)"
  by (simp add: float_rounding_def mono_def)

lemma pow_ge_64: "7 \<le> a \<Longrightarrow> (64::real) \<le> 2 ^ (a - 1)"
proof -
  assume "7 \<le> a"
  then have "(2::real) ^ 6 \<le> 2 ^ (a - 1)" by (intro power_increasing) auto
  then show ?thesis by simp
qed

lemma pow_le_32: "a \<le> 6 \<Longrightarrow> (2::nat) ^ (a - 1) \<le> 32"
proof -
  assume "a \<le> 6"
  then have "(2::nat) ^ (a - 1) \<le> 2 ^ 5" by (intro power_increasing) auto
  then show ?thesis by simp
qed

lemma delay_lower:
  assumes fr: "float_rounding f" and j: "0 \<le> j" and a: "a \<le> 1024"
  shows "2 ^ (a - 1) \<le> f (2 ^ (a - 1) + j)"
proof -
  have "f (2 ^ (a - 1)) \<le> f (2 ^ (a - 1) + j)"
    using j by (intro float_rounding_mono [OF fr]) simp
  moreover have "f (2 ^ (a - 1)) = 2 ^ (a - 1)"
    using a by (intro float_rounding_pow [OF fr]) simp
  ultimately show ?thesis by simp
qed

lemma delay_upper_small:
  assumes fr: "float_rounding f" and j: "j < JITTER" and a: "a \<le> 6"
  shows "f (2 ^ (a - 1) + j) \<le> 2 ^ (a - 1) + 1"
proof -
  let ?n = "(2::nat) ^ (a - 1) + 1"
  have n: "?n \<le> 2 ^ 53" using pow_le_32 [OF a] by simp
  have "(2::real) ^ (a - 1) + j \<le> real ?n" using j by (simp add: JITTER_def)
  then have "f (2 ^ (a - 1) + j) \<le> f (real ?n)"
    by (rule float_rounding_mono [OF fr])
  then show ?thesis using float_rounding_nat [OF fr n] by simp
qed

lemma delay_mono:
  assumes fr: "float_rounding f" and j: "j < JITTER" and j': "0 \<le> j'"
    and b: "1 \<le> b" and bc: "b < c"
  shows "min 60 (f (2 ^ (b - 1) + j)) \<le> min (60::real) (f (2 ^ (c - 1) + j'))"
proof -
  obtain b' where b': "b = Suc b'" using b by (cases b) auto
  have one: "(1::real) \<le> 2 ^ b'" by simp
  have "j \<le> 1" using j by (simp add: JITTER_def)
  then have "j \<le> 2 ^ b'" using one by linarith
  then have "(2::real) ^ (b - 1) + j \<le> 2 ^ b" unfolding b' by simp
  also have "(2::real) ^ b \<le> 2 ^ (c - 1)" using bc by (intro power_increasing) auto
  also have "\<dots> \<le> 2 ^ (c - 1) + j'" using j' by simp
  finally have "f (2 ^ (b - 1) + j) \<le> f (2 ^ (c - 1) + j')"
    by (rule float_rounding_mono [OF fr])
  then show ?thesis by (intro min.mono) auto
qed

lemma delays_sorted:
  assumes fr: "float_rounding f" and u: "\<forall>n. 0 \<le> u n \<and> u n < JITTER"
  shows "sorted (map (\<lambda>b. min (60::real) (f (2 ^ (b - 1) + u (d + (b - 1))))) [1 ..< m])"
proof -
  have "sorted_wrt (\<lambda>b c. min (60::real) (f (2 ^ (b - 1) + u (d + (b - 1))))
                        \<le> min 60 (f (2 ^ (c - 1) + u (d + (c - 1))))) [1 ..< m]"
  proof (rule sorted_wrt_mono_rel [OF _ sorted_wrt_upt])
    fix b c assume "b \<in> set [1 ..< m]" "c \<in> set [1 ..< m]" "b < c"
    then have "1 \<le> b" by simp
    then show "min (60::real) (f (2 ^ (b - 1) + u (d + (b - 1))))
                        \<le> min 60 (f (2 ^ (c - 1) + u (d + (c - 1))))"
      using delay_mono [OF fr _ _ _ \<open>b < c\<close>] u by blast
  qed
  then show ?thesis by (simp add: sorted_wrt_map)
qed

text \<open>
  Claim C4, as the code has it. The backoff slept after a temporary failure of attempt
  \<open>a\<close> is \<open>min(60, 2^(a-1) + jitter)\<close>, the sum being a floating-point sum and the
  jitter drawn from \<open>[0, 0.2)\<close>: the cap applies to the sum, so the jitter is added below
  the cap and not on top of it. The statement is for the attempts 1 to 1024: at attempt
  1025 the sum of the integer \<open>2^1024\<close> and a float raises \<^verbatim>\<open>OverflowError\<close>. The
  rounding of the sum is a parameter, assumed monotone and exact on the powers of two and
  on the whole numbers a float represents. For the attempts 1 to 6 the delay is the rounded
  sum, between \<open>2^(a-1)\<close> and \<open>2^(a-1) + 1\<close>; from attempt 7 on it is exactly 60 seconds;
  the delays of successive attempts are non-decreasing and each is at most 60 seconds,
  hence at most 60 seconds plus the jitter bound. The last two parts are about the loop
  of attempts: after a failure classified as temporary at an attempt \<open>a\<close> below
  \<^verbatim>\<open>MAX_RETRIES\<close> the loop draws one jitter, sleeps this delay and goes on to the next
  attempt; and when every send fails temporarily, the delays the loop sleeps are these,
  in order, for the attempts 1 to \<^verbatim>\<open>MAX_RETRIES\<close> - 1, a sorted list, and
  \<^verbatim>\<open>send_message\<close> is called \<^verbatim>\<open>MAX_RETRIES\<close> times.
\<close>

theorem backoff_capped_with_jitter:
  assumes fr: "float_rounding (float_round lib)"
    and j: "0 \<le> j" "j < JITTER" and j': "0 \<le> j'" "j' < JITTER"
    and a: "1 \<le> a" "a \<le> 1024"
  shows
    "sleep_time lib a j = Inr (min 60 (float_round lib (2 ^ (a - 1) + j)))
     \<and> (a \<le> 6 \<longrightarrow> sleep_time lib a j = Inr (float_round lib (2 ^ (a - 1) + j))
           \<and> 2 ^ (a - 1) \<le> float_round lib (2 ^ (a - 1) + j)
           \<and> float_round lib (2 ^ (a - 1) + j) \<le> 2 ^ (a - 1) + 1)
     \<and> (7 \<le> a \<longrightarrow> sleep_time lib a j = Inr 60)
     \<and> (a + 1 \<le> 1024 \<longrightarrow>
          (\<exists>d d'. sleep_time lib a j = Inr d \<and> sleep_time lib (a + 1) j' = Inr d' \<and> d \<le> d'))
     \<and> (\<exists>d. sleep_time lib a j = Inr d \<and> d \<le> 60 \<and> d \<le> 60 + JITTER)
     \<and> (try_send cfg w i tot email msg st = Classified True st' \<and> a < MAX_RETRIES cfg \<longrightarrow>
          retry_loop cfg lib w i tot email msg (a # rest) st =
            retry_loop cfg lib w i tot email msg rest
              (st'\<lparr> draws := draws st' + 1,
                     sleeps := sleeps st'
                       @ [min 60 (float_round lib (2 ^ (a - 1) + uniform w (draws st')))] \<rparr>))
     \<and> (\<not> DRY_RUN cfg \<and> MAX_RETRIES cfg \<le> 1025
          \<and> (\<forall>n. classified_temporary (send_message w n))
          \<and> (\<forall>n. 0 \<le> uniform w n \<and> uniform w n < JITTER) \<longrightarrow>
          fst (retry_loop cfg lib w i tot email msg (attempts cfg) st) = None
        \<and> sleeps (snd (retry_loop cfg lib w i tot email msg (attempts cfg) st))
            = sleeps st
              @ map (\<lambda>b. min 60 (float_round lib (2 ^ (b - 1) + uniform w (draws st + (b - 1)))))
                  [1 ..< MAX_RETRIES cfg]
        \<and> sorted (map (\<lambda>b. min 60
                     (float_round lib (2 ^ (b - 1) + uniform w (draws st + (b - 1)))))
                  [1 ..< MAX_RETRIES cfg])
        \<and> send_calls (snd (retry_loop cfg lib w i tot email msg (attempts cfg) st))
            = send_calls st + MAX_RETRIES cfg)"
proof -
  let ?f = "float_round lib"
  have p1: "sleep_time lib a j = Inr (min 60 (?f (2 ^ (a - 1) + j)))"
    using a(2) by (rule sleep_time_Inr)
  have lo: "2 ^ (a - 1) \<le> ?f (2 ^ (a - 1) + j)"
    using delay_lower [OF fr j(1) a(2)] .
  have p2: "a \<le> 6 \<longrightarrow> sleep_time lib a j = Inr (?f (2 ^ (a - 1) + j))
           \<and> 2 ^ (a - 1) \<le> ?f (2 ^ (a - 1) + j)
           \<and> ?f (2 ^ (a - 1) + j) \<le> 2 ^ (a - 1) + 1"
  proof
    assume a6: "a \<le> 6"
    have up: "?f (2 ^ (a - 1) + j) \<le> 2 ^ (a - 1) + 1"
      using delay_upper_small [OF fr j(2) a6] .
    have "real ((2::nat) ^ (a - 1)) \<le> 32" using pow_le_32 [OF a6] by (simp only: of_nat_le_iff of_nat_numeral)
    then have "(2::real) ^ (a - 1) \<le> 32" by simp
    then have "?f (2 ^ (a - 1) + j) \<le> 60" using up by simp
    then show "sleep_time lib a j = Inr (?f (2 ^ (a - 1) + j))
           \<and> 2 ^ (a - 1) \<le> ?f (2 ^ (a - 1) + j)
           \<and> ?f (2 ^ (a - 1) + j) \<le> 2 ^ (a - 1) + 1"
      using p1 lo up by simp
  qed
  have p3: "7 \<le> a \<longrightarrow> sleep_time lib a j = Inr 60"
  proof
    assume "7 \<le> a"
    then have "(60::real) \<le> ?f (2 ^ (a - 1) + j)" using pow_ge_64 [of a] lo by simp
    then show "sleep_time lib a j = Inr 60" using p1 by simp
  qed
  have p4: "a + 1 \<le> 1024 \<longrightarrow>
      (\<exists>d d'. sleep_time lib a j = Inr d \<and> sleep_time lib (a + 1) j' = Inr d' \<and> d \<le> d')"
  proof
    assume a1: "a + 1 \<le> 1024"
    have "min 60 (?f (2 ^ (a - 1) + j)) \<le> min 60 (?f (2 ^ (a + 1 - 1) + j'))"
      using delay_mono [OF fr j(2) j'(1) a(1), of "a + 1"] by simp
    then show "\<exists>d d'. sleep_time lib a j = Inr d \<and> sleep_time lib (a + 1) j' = Inr d' \<and> d \<le> d'"
      using p1 sleep_time_Inr [OF a1, of lib j'] by simp
  qed
  have p5: "\<exists>d. sleep_time lib a j = Inr d \<and> d \<le> 60 \<and> d \<le> 60 + JITTER"
    using p1 by (simp add: JITTER_def)
  have p6: "try_send cfg w i tot email msg st = Classified True st' \<and> a < MAX_RETRIES cfg \<longrightarrow>
          retry_loop cfg lib w i tot email msg (a # rest) st =
            retry_loop cfg lib w i tot email msg rest
              (st'\<lparr> draws := draws st' + 1,
                     sleeps := sleeps st'
                       @ [min 60 (?f (2 ^ (a - 1) + uniform w (draws st')))] \<rparr>)"
    using a(2) by (simp add: sleep_time_Inr)
  have p7: "\<not> DRY_RUN cfg \<and> MAX_RETRIES cfg \<le> 1025
          \<and> (\<forall>n. classified_temporary (send_message w n))
          \<and> (\<forall>n. 0 \<le> uniform w n \<and> uniform w n < JITTER) \<longrightarrow>
          fst (retry_loop cfg lib w i tot email msg (attempts cfg) st) = None
        \<and> sleeps (snd (retry_loop cfg lib w i tot email msg (attempts cfg) st))
            = sleeps st
              @ map (\<lambda>b. min 60 (?f (2 ^ (b - 1) + uniform w (draws st + (b - 1)))))
                  [1 ..< MAX_RETRIES cfg]
        \<and> sorted (map (\<lambda>b. min 60 (?f (2 ^ (b - 1) + uniform w (draws st + (b - 1)))))
                  [1 ..< MAX_RETRIES cfg])
        \<and> send_calls (snd (retry_loop cfg lib w i tot email msg (attempts cfg) st))
            = send_calls st + MAX_RETRIES cfg"
  proof
    assume h: "\<not> DRY_RUN cfg \<and> MAX_RETRIES cfg \<le> 1025
          \<and> (\<forall>n. classified_temporary (send_message w n))
          \<and> (\<forall>n. 0 \<le> uniform w n \<and> uniform w n < JITTER)"
    then have nd: "\<not> DRY_RUN cfg" and m: "MAX_RETRIES cfg \<le> 1025"
      and all: "\<forall>n \<ge> send_calls st. classified_temporary (send_message w n)"
      and u: "\<forall>n. 0 \<le> uniform w n \<and> uniform w n < JITTER" by simp_all
    have le: "1 \<le> MAX_RETRIES cfg" by (simp add: MAX_RETRIES_def)
    obtain st2 where st2:
      "retry_loop cfg lib w i tot email msg [1 ..< MAX_RETRIES cfg + 1] st = (None, st2)"
      "send_calls st2 = send_calls st + (MAX_RETRIES cfg + 1 - 1)"
      "sleeps st2 = sleeps st
          @ map (\<lambda>b. min 60 (?f (2 ^ (b - 1) + uniform w (draws st + (b - 1)))))
              [1 ..< MAX_RETRIES cfg]"
      using retry_all_temporary [OF nd m refl le all, of lib i tot email msg] by blast
    have att: "attempts cfg = [1 ..< MAX_RETRIES cfg + 1]" by (simp add: attempts_def)
    have so: "sorted (map (\<lambda>b. min 60 (?f (2 ^ (b - 1) + uniform w (draws st + (b - 1)))))
                  [1 ..< MAX_RETRIES cfg])"
      using delays_sorted [OF fr u] .
    show "fst (retry_loop cfg lib w i tot email msg (attempts cfg) st) = None
        \<and> sleeps (snd (retry_loop cfg lib w i tot email msg (attempts cfg) st))
            = sleeps st
              @ map (\<lambda>b. min 60 (?f (2 ^ (b - 1) + uniform w (draws st + (b - 1)))))
                  [1 ..< MAX_RETRIES cfg]
        \<and> sorted (map (\<lambda>b. min 60 (?f (2 ^ (b - 1) + uniform w (draws st + (b - 1)))))
                  [1 ..< MAX_RETRIES cfg])
        \<and> send_calls (snd (retry_loop cfg lib w i tot email msg (attempts cfg) st))
            = send_calls st + MAX_RETRIES cfg"
      unfolding att st2(1) using st2(2,3) so by simp
  qed
  show ?thesis by (intro conjI) (rule p1 p2 p3 p4 p5 p6 p7)+
qed

text \<open>
  The theorem at attempt 3 with a jitter of an eighth of a second, and at the loop of
  eight attempts against a server that always times out.
\<close>

theorem backoff_capped_with_jitter_witness:
  "float_rounding (float_round example_lib)
   \<and> (0::real) \<le> 1 / 8 \<and> 1 / 8 < JITTER \<and> (1::nat) \<le> 3 \<and> (3::nat) \<le> 1024
   \<and> sleep_time example_lib 3 (1 / 8) = Inr (33 / 8)
   \<and> \<not> DRY_RUN retry8_cfg \<and> MAX_RETRIES retry8_cfg \<le> 1025
   \<and> classified_temporary (OtherException ''timed out'')
   \<and> sleeps (snd (retry_loop retry8_cfg example_lib timeout_world 1 1 ''ann@example.com''
        example_msg (attempts retry8_cfg) initial_state))
      = [9 / 8, 17 / 8, 33 / 8, 65 / 8, 129 / 8, 257 / 8, 60]
   \<and> sorted [9 / 8, 17 / 8, 33 / 8, 65 / 8, 129 / 8, 257 / 8, (60::real)]"
proof -
  have fr: "float_rounding (float_round example_lib)"
    by (simp add: example_lib_def float_rounding_id)
  have h: "(0::real) \<le> 1 / 8" "(1 / 8 :: real) < JITTER" "(1::nat) \<le> 3" "(3::nat) \<le> 1024"
    by (simp_all add: JITTER_def)
  note t = backoff_capped_with_jitter [OF fr h(1) h(2) h(1) h(2) h(3) h(4),
      where cfg = retry8_cfg and w = timeout_world and i = 1 and tot = 1
        and email = "''ann@example.com''" and msg = example_msg and st = initial_state]
  have le: "(3::nat) \<le> 6" by simp
  have "sleep_time example_lib 3 (1 / 8) = Inr (float_round example_lib (2 ^ (3 - 1) + 1 / 8))"
    using t [THEN conjunct2, THEN conjunct1, THEN mp, OF le] by (rule conjunct1)
  then have v: "sleep_time example_lib 3 (1 / 8) = Inr (33 / 8)"
    by (simp add: example_lib_def)
  have nd: "\<not> DRY_RUN retry8_cfg" by (simp add: retry8_cfg_def example_cfg_def)
  have m: "MAX_RETRIES retry8_cfg = 8"
    by (simp add: MAX_RETRIES_def retry8_cfg_def example_cfg_def)
  have ct: "classified_temporary (OtherException ''timed out'')"
    by (simp add: classified_temporary_def)
  have pre: "\<not> DRY_RUN retry8_cfg \<and> MAX_RETRIES retry8_cfg \<le> 1025
          \<and> (\<forall>n. classified_temporary (send_message timeout_world n))
          \<and> (\<forall>n. 0 \<le> uniform timeout_world n \<and> uniform timeout_world n < JITTER)"
    using nd m ct by (simp add: timeout_world_def JITTER_def)
  note run = t [THEN conjunct2, THEN conjunct2, THEN conjunct2, THEN conjunct2,
      THEN conjunct2, THEN conjunct2, THEN mp, OF pre]
  have l: "[1 ..< (8::nat)] = [1, 2, 3, 4, 5, 6, 7]" by (simp add: upt_rec)
  have sl: "sleeps (snd (retry_loop retry8_cfg example_lib timeout_world 1 1 ''ann@example.com''
        example_msg (attempts retry8_cfg) initial_state))
      = [9 / 8, 17 / 8, 33 / 8, 65 / 8, 129 / 8, 257 / 8, 60]"
    unfolding run [THEN conjunct2, THEN conjunct1] m l
    by (simp add: initial_state_def example_lib_def timeout_world_def)
  have so: "sorted [9 / 8, 17 / 8, 33 / 8, 65 / 8, 129 / 8, 257 / 8, (60::real)]"
    by simp
  show ?thesis using fr h v nd m ct sl so by simp
qed

text \<open>
  The claim as the specification states it, the capped power plus the jitter on top,
  fails at attempt 7 with a jitter of an eighth of a second, a value a float represents
  exactly: the code sleeps 60 seconds, not 60.125. The run with eight attempts against a
  server that always times out shows the seven delays. At attempt 1025 no delay is slept
  at all: the sum raises \<^verbatim>\<open>OverflowError\<close>.
\<close>

theorem backoff_jitter_on_top_counterexample:
  "(0::real) \<le> 1 / 8 \<and> 1 / 8 < JITTER
   \<and> sleep_time example_lib 7 (1 / 8) = Inr 60
   \<and> (60::real) \<noteq> min 60 (2 ^ (7 - 1)) + 1 / 8
   \<and> sleeps (snd (retry_loop retry8_cfg example_lib timeout_world 1 1 ''ann@example.com''
        example_msg (attempts retry8_cfg) initial_state))
      = [9 / 8, 17 / 8, 33 / 8, 65 / 8, 129 / 8, 257 / 8, 60]
   \<and> sleep_time example_lib 1025 (1 / 8) = Inl OverflowError"
proof -
  have a: "attempts retry8_cfg = [1, 2, 3, 4, 5, 6, 7, 8]"
    by (simp add: attempts_def MAX_RETRIES_def retry8_cfg_def example_cfg_def upt_rec)
  have m: "MAX_RETRIES retry8_cfg = 8"
    by (simp add: MAX_RETRIES_def retry8_cfg_def example_cfg_def)
  have d: "\<not> DRY_RUN retry8_cfg"
    by (simp add: retry8_cfg_def example_cfg_def)
  show ?thesis
    unfolding a
    by (simp add: m d try_send_def timeout_world_def example_world_def example_lib_def
        initial_state_def sleep_time_def JITTER_def Let_def)
qed

section \<open>The preconditions of a run\<close>





















section \<open>Runs that end otherwise than the specification says\<close>

text \<open>
  Claim C1 says that every processed recipient increments exactly one of \<open>sent\<close>,
  \<open>failed\<close> and \<open>skipped\<close>, so that their sum is the number of records. In this run,
  with the default three attempts, every send loses the connection and every reconnect
  succeeds: each attempt ends in \<^verbatim>\<open>continue\<close>, the range of attempts runs out, and the
  one recipient is counted nowhere.
\<close>

theorem disconnect_on_last_attempt_uncounted:
  "MAX_RETRIES example_cfg = 3 \<and> \<not> DRY_RUN example_cfg
   \<and> recipients_csv example_files = Some [[''Email'', ''Name''], [''ann@example.com'', ''Ann'']]
   \<and> length (load_recipients [[''Email'', ''Name''], [''ann@example.com'', ''Ann'']]) = 1
   \<and> counters (main example_cfg example_lib example_files disconnecting_world)
       = Some (0, 0, 0, 0)"
  by code_simp

text \<open>
  Claim C3 says that every session opened is closed exactly once. In this run the first
  send loses the connection, the reconnect opens session 1 and the message is delivered
  over it; at the end of the \<^verbatim>\<open>with\<close> block only session 0, the context manager, is
  closed, and session 1 is left open.
\<close>

theorem reconnected_session_never_closed:
  "sessions (main example_cfg example_lib example_files reconnecting_world)
     = Some ([0, 1], [0])
   \<and> counters (main example_cfg example_lib example_files reconnecting_world)
     = Some (1, 0, 0, 0)"
  by code_simp

text \<open>
  Claim C2 says that a permanent failure, a 5xx rejection, on the first attempt gives
  exactly one attempt. The server of this run refuses the recipient with the reply 550
  at every send. \<^verbatim>\<open>send_message\<close> reports a refusal of all recipients by
  \<^verbatim>\<open>SMTPRecipientsRefused\<close>, which is not an \<^verbatim>\<open>SMTPResponseException\<close>: the
  handler for any other exception takes it, classifies it as temporary without looking at
  the reply code, and the message is sent three times, with two backoff delays, before the
  recipient is counted as failed.
\<close>

theorem refused_recipient_retried:
  "MAX_RETRIES example_cfg = 3 \<and> \<not> DRY_RUN example_cfg
   \<and> recipients_csv example_files = Some [[''Email'', ''Name''], [''ann@example.com'', ''Ann'']]
   \<and> send_message refusing_world 0 = RecipientsRefused 550 ''no such user''
   \<and> send_message refusing_world 1 = RecipientsRefused 550 ''no such user''
   \<and> send_message refusing_world 2 = RecipientsRefused 550 ''no such user''
   \<and> send_count (main example_cfg example_lib example_files refusing_world) = Some 3
   \<and> counters (main example_cfg example_lib example_files refusing_world)
       = Some (0, 1, 0, 0)
   \<and> raised (main example_cfg example_lib example_files refusing_world) = None"
  by code_simp

text \<open>
  Claim C7 says that with dry-run enabled every valid, non-suppressed recipient is counted
  as skipped and the run advances to the next one. The message is built before the loop of
  attempts tests \<^verbatim>\<open>DRY_RUN\<close>, and outside its \<^verbatim>\<open>try\<close>. The first of the two
  recipients of this run has an address that the validator accepts and that is not ASCII:
  \<^verbatim>\<open>formataddr\<close> raises \<^verbatim>\<open>UnicodeEncodeError\<close> in \<^verbatim>\<open>build_message\<close>, nothing
  catches it, and the run ends there with neither recipient counted.
\<close>

theorem dry_run_build_error_ends_run:
  "DRY_RUN dry_run_cfg
   \<and> recipients_csv non_ascii_files
       = Some [[''Email'', ''Name''], [CHR 0xE1 # ''nn@example.com'', ''Ann''],
               [''bob@example.com'', ''Bob'']]
   \<and> length (load_recipients [[''Email'', ''Name''], [CHR 0xE1 # ''nn@example.com'', ''Ann''],
               [''bob@example.com'', ''Bob'']]) = 2
   \<and> validate_email example_world (CHR 0xE1 # ''nn@example.com'')
       = Inr (CHR 0xE1 # ''nn@example.com'')
   \<and> suppressions_file non_ascii_files = None
   \<and> raised (main dry_run_cfg example_lib non_ascii_files example_world)
       = Some (UnicodeEncodeError (CHR 0xE1 # ''nn@example.com''))
   \<and> counters (main dry_run_cfg example_lib non_ascii_files example_world)
       = Some (0, 0, 0, 0)
   \<and> send_count (main dry_run_cfg example_lib non_ascii_files example_world) = Some 0"
  by code_simp

end
